theory Spec2Isabelle
  imports Complex_Main
begin

section \<open>Host-language strings and numbers\<close>

text \<open>
  The search client is JavaScript. Its strings are modelled as \<open>string\<close>, a list of
  8-bit characters read as the code units \<open>0\<close> to \<open>255\<close>. The model is exact for ASCII
  text, which is what the fallback dataset's names and brands and the filter language
  consist of. Of the characters above 127 the no-break space \<open>U+00A0\<close> is white space
  for a regular expression; the case mappings leave a character above 127 as it is,
  where the host maps it to another character above 127 (or \<open>U+00DF\<close> to \<open>SS\<close>), and
  neither gives a text equal to a brand, or contained in a name, of the dataset.

  Prices and counts are \<open>int\<close>. A weight or a number of battery hours is a binary64
  value, held as the rational number it denotes: \<open>binary64 q\<close> is the double nearest
  to \<open>q\<close>, ties to the even significand, with the subnormal range, and with \<open>2\<^sup>1\<^sup>0\<^sup>2\<^sup>4\<close>
  standing for \<open>Infinity\<close> (it lies above every finite double, which is all that a
  comparison asks of it). A numeric literal of the source and the result of
  \<open>parseFloat\<close> are rounded this way. \<open>parseInt\<close> is left exact: a price of the dataset
  lies below \<open>2\<^sup>5\<^sup>3\<close>, and it is below an integer exactly when it is below the double
  nearest to that integer.
\<close>

definition isSpace :: "char \<Rightarrow> bool" where
  \<comment> \<open>the regular-expression class \<open>\s\<close>: space, TAB, LF, VT, FF, CR, no-break space\<close>
  "isSpace c = (c \<in> set [CHR 0x20, CHR 0x09, CHR 0x0A, CHR 0x0B, CHR 0x0C, CHR 0x0D, CHR 0xA0])"

definition isDigit :: "char \<Rightarrow> bool" where
  \<comment> \<open>the regular-expression class \<open>\d\<close>\<close>
  "isDigit c = (c \<in> set ''0123456789'')"

definition digitValue :: "char \<Rightarrow> nat" where
  "digitValue c =
     (case map_of (zip ''0123456789'' [0, 1, 2, 3, 4, 5, 6, 7, 8, 9]) c of
        Some d \<Rightarrow> d
      | None \<Rightarrow> 0)"

definition upperChar :: "char \<Rightarrow> char" where
  "upperChar c =
     (case map_of (zip ''abcdefghijklmnopqrstuvwxyz'' ''ABCDEFGHIJKLMNOPQRSTUVWXYZ'') c of
        Some u \<Rightarrow> u
      | None \<Rightarrow> c)"

definition lowerChar :: "char \<Rightarrow> char" where
  "lowerChar c =
     (case map_of (zip ''ABCDEFGHIJKLMNOPQRSTUVWXYZ'' ''abcdefghijklmnopqrstuvwxyz'') c of
        Some l \<Rightarrow> l
      | None \<Rightarrow> c)"

definition toUpperCase :: "string \<Rightarrow> string" where
  "toUpperCase s = map upperChar s"

definition toLowerCase :: "string \<Rightarrow> string" where
  "toLowerCase s = map lowerChar s"

text \<open>
  Rounding to binary64, in integer arithmetic. \<open>bitLength n\<close> is the number of binary
  digits of \<open>n\<close>, and \<open>scaled n d k\<close> is the fraction \<open>n / d\<close> times \<open>2\<^sup>k\<close>. For the positive
  fraction \<open>n / d\<close> the exponent \<open>e\<close> has \<open>2\<^sup>e \<le> n / d < 2\<^sup>e\<^sup>+\<^sup>1\<close> and is at least \<open>-1022\<close>
  (below that the numbers are subnormal); the doubles at that exponent are the
  multiples \<open>m\<close> of \<open>2\<^sup>e\<^sup>-\<^sup>5\<^sup>2\<close>, and \<open>m\<close> is the integer nearest to \<open>n / d\<close> over \<open>2\<^sup>e\<^sup>-\<^sup>5\<^sup>2\<close>,
  the even one of two that are equally near.
\<close>

function bitLength :: "int \<Rightarrow> nat" where
  "bitLength n = (if n \<le> 0 then 0 else Suc (bitLength (n div 2)))"
  by pat_completeness auto
termination
  by (relation "measure nat") auto

declare bitLength.simps [simp del]

definition roundHalfEven :: "int \<Rightarrow> int \<Rightarrow> int" where
  \<comment> \<open>the integer nearest to \<open>n / d\<close>, for \<open>0 \<le> n\<close> and \<open>0 < d\<close>\<close>
  "roundHalfEven n d =
     (let f = n div d;
          r = n mod d
      in if 2 * r < d then f
         else if d < 2 * r then f + 1
         else if even f then f else f + 1)"

definition scaled :: "int \<Rightarrow> int \<Rightarrow> int \<Rightarrow> int \<times> int" where
  "scaled n d k = (if 0 \<le> k then (n * 2 ^ nat k, d) else (n, d * 2 ^ nat (- k)))"

definition binary64 :: "rat \<Rightarrow> rat" where
  "binary64 q =
     (if q = 0 then 0
      else
        (let (n, d) = quotient_of \<bar>q\<bar>;
             k = int (bitLength n) - int (bitLength d);
             (n1, d1) = scaled n d (- k);
             e = max (if d1 \<le> n1 then k else k - 1) (- 1022);
             (n2, d2) = scaled n d (52 - e);
             m = roundHalfEven n2 d2;
             (n3, d3) = scaled m 1 (e - 52)
         in if 1024 \<le> e \<or> (e = 1023 \<and> m = 2 ^ 53) then sgn q * 2 ^ 1024
            else sgn q * (of_int n3 / of_int d3)))"

text \<open>\<open>parseInt\<close> and \<open>parseFloat\<close> on the texts the filter patterns capture:
  a run of digits, and a run of digits with an optional point and fraction.\<close>

definition parseInt :: "string \<Rightarrow> int" where
  "parseInt s = foldl (\<lambda>acc c. 10 * acc + int (digitValue c)) 0 (takeWhile isDigit s)"

definition fractionDigits :: "string \<Rightarrow> string" where
  "fractionDigits s =
     (case dropWhile isDigit s of
        [] \<Rightarrow> []
      | c # t \<Rightarrow> if c = CHR ''.'' then takeWhile isDigit t else [])"

definition parseFloat :: "string \<Rightarrow> rat" where
  "parseFloat s =
     binary64 (of_int (parseInt s)
               + of_int (parseInt (fractionDigits s)) / 10 ^ length (fractionDigits s))"

fun stripPrefix :: "string \<Rightarrow> string \<Rightarrow> string option" where
  "stripPrefix [] s = Some s"
| "stripPrefix (p # ps) [] = None"
| "stripPrefix (p # ps) (c # cs) = (if p = c then stripPrefix ps cs else None)"

text \<open>\<open>String.prototype.match\<close> with a pattern that has no global flag: the match
  at the leftmost position of the text where the pattern matches at all.\<close>

fun firstMatch :: "(string \<Rightarrow> 'a option) \<Rightarrow> string \<Rightarrow> 'a option" where
  "firstMatch m [] = m []"
| "firstMatch m (c # cs) =
     (case m (c # cs) of Some r \<Rightarrow> Some r | None \<Rightarrow> firstMatch m cs)"

definition js_includes :: "string \<Rightarrow> string \<Rightarrow> bool" where
  "js_includes s sub = (firstMatch (stripPrefix sub) s \<noteq> None)"

text \<open>\<open>split(' ')\<close>: the pieces between single spaces, empty pieces included.\<close>

fun splitSpace :: "string \<Rightarrow> string list" where
  "splitSpace [] = [[]]"
| "splitSpace (c # cs) =
     (if c = CHR 0x20 then [] # splitSpace cs
      else (case splitSpace cs of [] \<Rightarrow> [[c]] | t # ts \<Rightarrow> (c # t) # ts))"

text \<open>\<open>xs.slice(0, end)\<close> for an integer \<open>end\<close>: a negative end counts from the
  back of the list.\<close>

definition slice0 :: "'a list \<Rightarrow> int \<Rightarrow> 'a list" where
  "slice0 xs e =
     (let len = int (length xs);
          final = (if e < 0 then max (len + e) 0 else min e len)
      in take (nat final) xs)"

section \<open>The filter patterns of the fallback search\<close>

text \<open>
  Each pattern is matched the way the regular-expression engine does it. After the
  field name the engine skips white space, an optional operator character, white
  space again, and then needs a digit; every quantifier is greedy and the text after
  a run of white space is never white space, so backtracking finds no match that the
  greedy pass misses, and the capture is the longest run.
\<close>

definition afterOperator :: "char \<Rightarrow> string \<Rightarrow> string" where
  \<comment> \<open>\<open>\s*<?\s*\<close> (or with \<open>>\<close>): what is left of the text\<close>
  "afterOperator opc s =
     (let r1 = dropWhile isSpace s;
          r2 = (case r1 of [] \<Rightarrow> r1 | c # t \<Rightarrow> if c = opc then t else r1)
      in dropWhile isSpace r2)"

definition integerCapture :: "string \<Rightarrow> string option" where
  \<comment> \<open>\<open>(\d+)\<close>\<close>
  "integerCapture s = (let d = takeWhile isDigit s in if d = [] then None else Some d)"

definition decimalCapture :: "string \<Rightarrow> string option" where
  \<comment> \<open>\<open>(\d+\.?\d*)\<close>\<close>
  "decimalCapture s =
     (let d = takeWhile isDigit s
      in if d = [] then None
         else (case dropWhile isDigit s of
                 [] \<Rightarrow> Some d
               | c # t \<Rightarrow> if c = CHR ''.'' then Some (d @ c # takeWhile isDigit t) else Some d))"

definition budgetMatch :: "string \<Rightarrow> string option" where
  \<comment> \<open>\<open>filters.match(/price_sale\s*<?\s*(\d+)/)\<close>, capture 1\<close>
  "budgetMatch filters =
     firstMatch (\<lambda>s. case stripPrefix ''price_sale'' s of
                         None \<Rightarrow> None
                       | Some r \<Rightarrow> integerCapture (afterOperator CHR ''<'' r)) filters"

definition weightMatch :: "string \<Rightarrow> string option" where
  \<comment> \<open>\<open>filters.match(/weight_kg\s*<?\s*(\d+\.?\d*)/)\<close>, capture 1\<close>
  "weightMatch filters =
     firstMatch (\<lambda>s. case stripPrefix ''weight_kg'' s of
                         None \<Rightarrow> None
                       | Some r \<Rightarrow> decimalCapture (afterOperator CHR ''<'' r)) filters"

definition batteryMatch :: "string \<Rightarrow> string option" where
  \<comment> \<open>\<open>filters.match(/battery_hours\s*>?\s*(\d+\.?\d*)/)\<close>, capture 1\<close>
  "batteryMatch filters =
     firstMatch (\<lambda>s. case stripPrefix ''battery_hours'' s of
                         None \<Rightarrow> None
                       | Some r \<Rightarrow> decimalCapture (afterOperator CHR ''>'' r)) filters"

definition brandMatch :: "string \<Rightarrow> string option" where
  \<comment> \<open>\<open>filters.match(/brand:([^\s]+)/)\<close>, capture 1\<close>
  "brandMatch filters =
     firstMatch (\<lambda>s. case stripPrefix ''brand:'' s of
                         None \<Rightarrow> None
                       | Some r \<Rightarrow>
                           (let v = takeWhile (\<lambda>c. \<not> isSpace c) r
                            in if v = [] then None else Some v)) filters"

section \<open>Requests, products and the fallback dataset\<close>

text \<open>A request field that the caller left out is \<open>None\<close>; the request itself may
  be \<open>null\<close>, which is \<open>None\<close> at the type \<open>request option\<close> (a call without an
  argument gets the empty request by the parameter's default).\<close>

record request =
  query :: "string option"
  filters :: "string option"
  hitsPerPage :: "int option"
  attributesToRetrieve :: "string list option"

definition emptyRequest :: request where
  "emptyRequest =
     \<lparr>query = None, filters = None, hitsPerPage = None, attributesToRetrieve = None\<rparr>"

text \<open>The fields of a product that the search reads, and its identifier; the other
  fields of the dataset (list price, memory, processor, features, links) are carried
  along unread and are left out.\<close>

record product =
  objectID :: string
  name :: string
  brand :: string
  price_sale :: int
  weight_kg :: rat
  battery_hours :: rat
  in_stock :: bool

definition DEMO_PRODUCTS :: "product list" where
  "DEMO_PRODUCTS =
     [\<lparr>objectID = ''demo-1'',
       name = ''HP Laptop 15\" Intel Core i5 16GB RAM 512GB SSD'',
       brand = ''HP'', price_sale = 2499000, weight_kg = binary64 (169 / 100),
       battery_hours = 8, in_stock = True\<rparr>,
      \<lparr>objectID = ''demo-2'',
       name = ''ASUS VivoBook 14\" AMD Ryzen 5 8GB RAM 256GB SSD'',
       brand = ''ASUS'', price_sale = 1999000, weight_kg = binary64 (140 / 100),
       battery_hours = 10, in_stock = True\<rparr>,
      \<lparr>objectID = ''demo-3'',
       name = ''Lenovo IdeaPad 3 15.6\" Intel Core i3 8GB RAM 256GB SSD'',
       brand = ''LENOVO'', price_sale = 1799000, weight_kg = binary64 (170 / 100),
       battery_hours = 15 / 2, in_stock = True\<rparr>,
      \<lparr>objectID = ''demo-4'',
       name = ''MacBook Air M2 13.6\" 8GB RAM 256GB SSD'',
       brand = ''APPLE'', price_sale = 4999000, weight_kg = binary64 (124 / 100),
       battery_hours = 18, in_stock = True\<rparr>,
      \<lparr>objectID = ''demo-5'',
       name = ''Dell Inspiron 15 3000 Intel Core i5 12GB RAM 512GB SSD'',
       brand = ''DELL'', price_sale = 2299000, weight_kg = binary64 (173 / 100),
       battery_hours = 17 / 2, in_stock = True\<rparr>]"

section \<open>The fallback search\<close>

record result =
  hits :: "product list"
  total :: int
  page :: int
  processingTimeMs :: int
  source :: string
  fallback :: "bool option"
  error :: "string option"

definition applyFilters :: "string \<Rightarrow> product list \<Rightarrow> product list" where
  \<comment> \<open>the body of \<open>if (filters) { ... }\<close>, one stage after the other\<close>
  "applyFilters fs results =
     (let results = (case budgetMatch fs of
                       None \<Rightarrow> results
                     | Some m \<Rightarrow> (let budget = parseInt m
                                 in filter (\<lambda>p. price_sale p < budget) results));
          results = (case weightMatch fs of
                       None \<Rightarrow> results
                     | Some m \<Rightarrow> (let maxWeight = parseFloat m
                                 in filter (\<lambda>p. weight_kg p < maxWeight) results));
          results = (case batteryMatch fs of
                       None \<Rightarrow> results
                     | Some m \<Rightarrow> (let minBattery = parseFloat m
                                 in filter (\<lambda>p. battery_hours p > minBattery) results));
          results = (if js_includes fs ''in_stock:true''
                     then filter (\<lambda>p. in_stock p) results else results);
          results = (case brandMatch fs of
                       None \<Rightarrow> results
                     | Some m \<Rightarrow> (let b = toUpperCase m
                                 in filter (\<lambda>p. toUpperCase (brand p) = b) results))
      in results)"

definition textSearch :: "string \<Rightarrow> product list \<Rightarrow> product list" where
  \<comment> \<open>the body of \<open>if (query && query !== 'laptop') { ... }\<close>\<close>
  "textSearch q results =
     (let searchTerms = splitSpace (toLowerCase q)
      in filter (\<lambda>p. let nameLower = toLowerCase (name p)
                      in list_ex (\<lambda>t. js_includes nameLower t) searchTerms) results)"

definition demoMatches :: "request option \<Rightarrow> product list" where
  \<comment> \<open>\<open>results\<close> of \<open>searchDemoProducts\<close> when it reaches its \<open>return\<close>\<close>
  "demoMatches params =
     (let safeParams = (case params of None \<Rightarrow> emptyRequest | Some r \<Rightarrow> r);
          q = (case query safeParams of None \<Rightarrow> [] | Some s \<Rightarrow> s);
          fs = (case filters safeParams of None \<Rightarrow> [] | Some s \<Rightarrow> s);
          results = DEMO_PRODUCTS;
          results = (if fs \<noteq> [] then applyFilters fs results else results);
          results = (if q \<noteq> [] \<and> q \<noteq> ''laptop'' then textSearch q results else results)
      in sort_key price_sale results)"

definition searchDemoProducts :: "request option \<Rightarrow> result" where
  "searchDemoProducts params =
     (let safeParams = (case params of None \<Rightarrow> emptyRequest | Some r \<Rightarrow> r);
          n = (case hitsPerPage safeParams of None \<Rightarrow> 5 | Some h \<Rightarrow> h);
          results = demoMatches params
      in \<lparr>hits = slice0 results n, total = int (length results), page = 0,
          processingTimeMs = 10, source = ''demo'', fallback = None, error = None\<rparr>)"

section \<open>What a request matches\<close>

text \<open>
  The claims speak of the products that match a request. The predicates of this
  section say it product by product, without the stages of the search:
  \<open>matchesFilters fs p\<close> holds when \<open>p\<close> satisfies the predicate of the leftmost match
  of each filter pattern in \<open>fs\<close>, and \<open>matchesQuery q p\<close> when the name of \<open>p\<close> contains
  one of the pieces of the query \<open>q\<close> split at single spaces (every product does, for
  the empty query and for the query \<open>laptop\<close>).
\<close>

definition matchesFilters :: "string \<Rightarrow> product \<Rightarrow> bool" where
  "matchesFilters fs p =
     ((case budgetMatch fs of None \<Rightarrow> True | Some m \<Rightarrow> price_sale p < parseInt m)
    \<and> (case weightMatch fs of None \<Rightarrow> True | Some m \<Rightarrow> weight_kg p < parseFloat m)
    \<and> (case batteryMatch fs of None \<Rightarrow> True | Some m \<Rightarrow> battery_hours p > parseFloat m)
    \<and> (js_includes fs ''in_stock:true'' \<longrightarrow> in_stock p)
    \<and> (case brandMatch fs of None \<Rightarrow> True | Some m \<Rightarrow> toUpperCase (brand p) = toUpperCase m))"

definition matchesQuery :: "string \<Rightarrow> product \<Rightarrow> bool" where
  "matchesQuery q p =
     (q = [] \<or> q = ''laptop''
      \<or> list_ex (\<lambda>t. js_includes (toLowerCase (name p)) t) (splitSpace (toLowerCase q)))"

definition matchesRequest :: "request \<Rightarrow> product \<Rightarrow> bool" where
  "matchesRequest r p =
     (matchesFilters (case filters r of None \<Rightarrow> [] | Some fs \<Rightarrow> fs) p
      \<and> matchesQuery (case query r of None \<Rightarrow> [] | Some q \<Rightarrow> q) p)"

text \<open>
  The atomic predicates of the specification's filter language on the five fields the
  fallback search reads, with their meaning on a product; and a filter expression as
  the texts of its atoms, conjoined by \<open>AND\<close> the way the command-line caller builds it.
\<close>

datatype atom = PriceBelow int | WeightBelow rat | BatteryAbove rat | BrandIs string | InStock

fun holds :: "atom \<Rightarrow> product \<Rightarrow> bool" where
  "holds (PriceBelow b) p = (price_sale p < b)"
| "holds (WeightBelow w) p = (weight_kg p < w)"
| "holds (BatteryAbove h) p = (battery_hours p > h)"
| "holds (BrandIs x) p = (toUpperCase (brand p) = toUpperCase x)"
| "holds InStock p = in_stock p"

definition satisfiesAll :: "atom list \<Rightarrow> product \<Rightarrow> bool" where
  "satisfiesAll atoms p = list_all (\<lambda>a. holds a p) atoms"

fun conjunction :: "string list \<Rightarrow> string" where
  "conjunction [] = []"
| "conjunction [a] = a"
| "conjunction (a # b # bs) = a @ '' AND '' @ conjunction (b # bs)"

text \<open>The first result in a list of texts: \<open>firstSome f xs\<close> is what \<open>f\<close> gives on the
  first text of \<open>xs\<close> on which it gives anything.\<close>

fun firstSome :: "('a \<Rightarrow> 'b option) \<Rightarrow> 'a list \<Rightarrow> 'b option" where
  "firstSome f [] = None"
| "firstSome f (x # xs) = (case f x of Some v \<Rightarrow> Some v | None \<Rightarrow> firstSome f xs)"

section \<open>The query cache\<close>

text \<open>\<open>JSON.stringify\<close> of a string and of an integer, as the cache key uses them
  (the integer in plain decimal digits, which is what the host prints below \<open>10\<^sup>2\<^sup>1\<close>).\<close>

definition hexDigit :: "nat \<Rightarrow> char" where
  "hexDigit n = ''0123456789abcdef'' ! n"

definition jsonEscapeChar :: "char \<Rightarrow> string" where
  "jsonEscapeChar c =
     (if c = CHR 0x22 then [CHR 0x5C, CHR 0x22]
      else if c = CHR 0x5C then [CHR 0x5C, CHR 0x5C]
      else if c = CHR 0x08 then [CHR 0x5C, CHR ''b'']
      else if c = CHR 0x0C then [CHR 0x5C, CHR ''f'']
      else if c = CHR 0x0A then [CHR 0x5C, CHR ''n'']
      else if c = CHR 0x0D then [CHR 0x5C, CHR ''r'']
      else if c = CHR 0x09 then [CHR 0x5C, CHR ''t'']
      else if (of_char c :: nat) < 32
        then [CHR 0x5C, CHR ''u'', CHR ''0'', CHR ''0'',
              hexDigit (of_char c div 16), hexDigit (of_char c mod 16)]
      else [c])"

definition jsonString :: "string \<Rightarrow> string" where
  "jsonString s = CHR 0x22 # concat (map jsonEscapeChar s) @ [CHR 0x22]"

fun natToString :: "nat \<Rightarrow> string" where
  "natToString n =
     (if n < 10 then [''0123456789'' ! n]
      else natToString (n div 10) @ [''0123456789'' ! (n mod 10)])"

definition numberToString :: "int \<Rightarrow> string" where
  "numberToString i = (if i < 0 then CHR ''-'' # natToString (nat (- i)) else natToString (nat i))"

definition generateCacheKey :: "request option \<Rightarrow> string" where
  "generateCacheKey params =
     (let safeParams = (case params of None \<Rightarrow> emptyRequest | Some r \<Rightarrow> r);
          q = (case query safeParams of None \<Rightarrow> [] | Some s \<Rightarrow> s);
          fs = (case filters safeParams of None \<Rightarrow> [] | Some s \<Rightarrow> s);
          n = (case hitsPerPage safeParams of None \<Rightarrow> 5 | Some h \<Rightarrow> if h = 0 then 5 else h)
      in ''{\"query\":'' @ jsonString q @ '',\"filters\":'' @ jsonString fs
           @ '',\"hitsPerPage\":'' @ numberToString n @ ''}'')"

record CacheEntry =
  data :: result
  timestamp :: int

section \<open>Configuration and module state\<close>

record config =
  MAX_RETRIES :: nat
  RETRY_DELAY_MS :: int
  CACHE_TTL_MS :: int
  DEMO_FALLBACK :: bool
  ANALYTICS_ENABLED :: bool

definition CONFIG :: config where
  "CONFIG = \<lparr>MAX_RETRIES = 3, RETRY_DELAY_MS = 1000, CACHE_TTL_MS = 5 * 60 * 1000,
             DEMO_FALLBACK = True, ANALYTICS_ENABLED = True\<rparr>"

record logEntry =
  log_timestamp :: int
  log_query :: "string option"
  log_filters :: "string option"
  hitsCount :: nat
  totalHits :: int
  duration :: int
  fromCache :: bool
  log_source :: string

text \<open>
  The module's mutable state, passed explicitly: the cache, the analytics log and the
  demo-mode flag. \<open>now\<close> is the clock that \<open>Date.now()\<close> reads; only an awaited
  \<open>delay\<close> advances it inside a call. \<open>delays\<close> and \<open>indexCalls\<close> record what the call
  did to the outside: every delay it awaited and how many queries it sent to the
  remote index. A record's time stamp is the clock's reading, not its ISO text.
\<close>

record state =
  searchCache :: "string \<Rightarrow> CacheEntry option"
  analyticsLog :: "logEntry list"
  isDemoMode :: bool
  now :: int
  delays :: "int list"
  indexCalls :: nat

definition moduleState :: state where
  \<comment> \<open>the state the module's declarations set up\<close>
  "moduleState = \<lparr>searchCache = Map.empty, analyticsLog = [], isDemoMode = False,
                  now = 0, delays = [], indexCalls = 0\<rparr>"

definition isCacheValid :: "state \<Rightarrow> CacheEntry option \<Rightarrow> bool" where
  "isCacheValid st entry =
     (case entry of
        None \<Rightarrow> False
      | Some e \<Rightarrow> (let age = now st - timestamp e in age < CACHE_TTL_MS CONFIG))"

definition clearCache :: "state \<Rightarrow> state" where
  "clearCache st = st\<lparr>searchCache := Map.empty\<rparr>"

definition clearAnalytics :: "state \<Rightarrow> state" where
  "clearAnalytics st = st\<lparr>analyticsLog := []\<rparr>"

definition setDemoMode :: "bool \<Rightarrow> state \<Rightarrow> state" where
  "setDemoMode enabled st = st\<lparr>isDemoMode := enabled\<rparr>"

section \<open>Analytics\<close>

definition makeLogEntry :: "request option \<Rightarrow> result \<Rightarrow> int \<Rightarrow> bool \<Rightarrow> state \<Rightarrow> logEntry" where
  \<comment> \<open>the object \<open>logEntry\<close> that \<open>logAnalytics\<close> builds\<close>
  "makeLogEntry params res dur cached st =
     (let safeParams = (case params of None \<Rightarrow> emptyRequest | Some r \<Rightarrow> r)
      in \<lparr>log_timestamp = now st, log_query = query safeParams,
          log_filters = filters safeParams, hitsCount = length (hits res),
          totalHits = total res, duration = dur, fromCache = cached,
          log_source = (if isDemoMode st then ''demo'' else ''algolia'')\<rparr>)"

definition logAnalytics :: "request option \<Rightarrow> result \<Rightarrow> int \<Rightarrow> bool \<Rightarrow> state \<Rightarrow> state" where
  "logAnalytics params res dur cached st =
     (if \<not> ANALYTICS_ENABLED CONFIG then st
      else
        (let pushed = analyticsLog st @ [makeLogEntry params res dur cached st]
         in st\<lparr>analyticsLog := (if length pushed > 1000 then tl pushed else pushed)\<rparr>))"

text \<open>The summary without its two formatted figures (hit rate and average duration,
  which are floating-point text); \<open>None\<close> is the summary's "no data" message.\<close>

record analyticsSummary =
  totalSearches :: nat
  cacheHits :: nat
  demoSearches :: nat
  recentSearches :: "logEntry list"

definition getAnalytics :: "state \<Rightarrow> analyticsSummary option" where
  "getAnalytics st =
     (if length (analyticsLog st) = 0 then None
      else Some \<lparr>totalSearches = length (analyticsLog st),
                 cacheHits = length (filter (\<lambda>l. fromCache l) (analyticsLog st)),
                 demoSearches = length (filter (\<lambda>l. log_source l = ''demo'') (analyticsLog st)),
                 recentSearches = drop (length (analyticsLog st) - 10) (analyticsLog st)\<rparr>)"

section \<open>The remote search gateway\<close>

datatype error = TypeError string | RemoteSearchError string

fun message :: "error \<Rightarrow> string" where
  "message (TypeError m) = m"
| "message (RemoteSearchError m) = m"

definition nullParamsError :: error where
  \<comment> \<open>reading a property of a \<open>null\<close> request\<close>
  "nullParamsError =
     TypeError (''Cannot read properties of null (reading '' @ [CHR 0x27] @ ''query''
                @ [CHR 0x27] @ '')'')"

record searchParams =
  sp_query :: string
  sp_hitsPerPage :: int
  sp_attributesToRetrieve :: "string list"
  sp_filters :: "string option"

record response =
  r_hits :: "product list"
  nbHits :: int
  r_page :: int
  processingTimeMS :: int

text \<open>The remote index is outside the program: \<open>idx k sp\<close> is what the index answers
  to the query \<open>sp\<close> when it is the \<open>k\<close>-th query sent to it (counting from 0).\<close>

type_synonym searchIndex = "nat \<Rightarrow> searchParams \<Rightarrow> error + response"

definition delay :: "int \<Rightarrow> state \<Rightarrow> state" where
  "delay ms st = st\<lparr>now := now st + ms, delays := delays st @ [ms]\<rparr>"

definition buildSearchParams :: "request \<Rightarrow> searchParams" where
  "buildSearchParams p =
     \<lparr>sp_query = (case query p of None \<Rightarrow> [] | Some s \<Rightarrow> s),
      sp_hitsPerPage = (case hitsPerPage p of None \<Rightarrow> 5 | Some h \<Rightarrow> if h = 0 then 5 else h),
      sp_attributesToRetrieve = (case attributesToRetrieve p of None \<Rightarrow> [] | Some a \<Rightarrow> a),
      sp_filters = (case filters p of None \<Rightarrow> None | Some f \<Rightarrow> if f = [] then None else Some f)\<rparr>"

function performAlgoliaSearch ::
  "searchIndex \<Rightarrow> request option \<Rightarrow> nat \<Rightarrow> state \<Rightarrow> (error + result) \<times> state" where
  "performAlgoliaSearch idx params attempt st =
     (case params of
        None \<Rightarrow> (Inl nullParamsError, st)
      | Some p \<Rightarrow>
          (case idx (indexCalls st) (buildSearchParams p) of
             Inr r \<Rightarrow>
               (Inr \<lparr>hits = r_hits r, total = nbHits r, page = r_page r,
                     processingTimeMs = processingTimeMS r, source = ''algolia'',
                     fallback = None, error = None\<rparr>,
                st\<lparr>indexCalls := indexCalls st + 1\<rparr>)
           | Inl e \<Rightarrow>
               (if attempt < MAX_RETRIES CONFIG
                then performAlgoliaSearch idx params (attempt + 1)
                       (delay (RETRY_DELAY_MS CONFIG * int attempt)
                          (st\<lparr>indexCalls := indexCalls st + 1\<rparr>))
                else (Inl e, st\<lparr>indexCalls := indexCalls st + 1\<rparr>))))"
  by pat_completeness auto
termination
  by (relation "measure (\<lambda>(idx, params, attempt, st). MAX_RETRIES CONFIG - attempt)") auto

declare performAlgoliaSearch.simps [simp del]

section \<open>The search orchestrator\<close>

definition searchProducts ::
  "searchIndex \<Rightarrow> request option \<Rightarrow> state \<Rightarrow> (error + result) \<times> state" where
  "searchProducts idx params st =
     (let startTime = now st;
          cacheKey = generateCacheKey params;
          cached = searchCache st cacheKey
      in case (if isCacheValid st cached then cached else None) of
           Some entry \<Rightarrow>
             (case params of
                None \<Rightarrow> (Inl nullParamsError, st)
                  \<comment> \<open>the log line of the cache hit reads \<open>params.query\<close>\<close>
              | Some p \<Rightarrow> (Inr (data entry), logAnalytics params (data entry) 0 True st))
         | None \<Rightarrow>
             (if isDemoMode st then
                (let res = searchDemoProducts params;
                     dur = now st - startTime;
                     st1 = logAnalytics params res dur False st;
                     st2 = st1\<lparr>searchCache := (searchCache st1)
                                (cacheKey \<mapsto> \<lparr>data = res, timestamp = now st1\<rparr>)\<rparr>
                 in (Inr res, st2))
              else
                (case performAlgoliaSearch idx params 1 st of
                   (Inr res, st1) \<Rightarrow>
                     (let dur = now st1 - startTime;
                          st2 = logAnalytics params res dur False st1;
                          st3 = st2\<lparr>searchCache := (searchCache st2)
                                     (cacheKey \<mapsto> \<lparr>data = res, timestamp = now st2\<rparr>)\<rparr>
                      in (Inr res, st3))
                 | (Inl err, st1) \<Rightarrow>
                     (if DEMO_FALLBACK CONFIG then
                        (let res = (searchDemoProducts params)
                                     \<lparr>fallback := Some True, error := Some (message err)\<rparr>;
                             dur = now st1 - startTime;
                             st2 = logAnalytics params res dur False st1
                         in (Inr res, st2))
                      else (Inl err, st1)))))"

section \<open>Scenarios\<close>

text \<open>A remote index that fails every query, and the state in which the test suite
  starts each test: empty cache, empty log, demo mode switched on.\<close>

definition unreachableIndex :: searchIndex where
  "unreachableIndex k sp = Inl (RemoteSearchError ''unreachable'')"

definition testState :: state where
  "testState = setDemoMode True (clearAnalytics (clearCache moduleState))"

section \<open>Properties of the numbers\<close>

text \<open>Some doubles: the nearest to a decimal fraction, a tie that goes to the even
  significand, and literals that \<open>parseFloat\<close> rounds; a literal of eighteen digits
  just above \<open>1.7\<close> is read as the double of \<open>1.7\<close> itself.\<close>

lemma binary64_values:
  "binary64 (1 / 10) = 3602879701896397 / 36028797018963968"
  "binary64 (169 / 100) = 3805541685128069 / 2251799813685248"
  "binary64 (17 / 10) = 7656119366529843 / 4503599627370496"
  "binary64 (15 / 2) = 15 / 2"
  "binary64 9007199254740993 = 9007199254740992"
  "binary64 9007199254740995 = 9007199254740996"
  "binary64 (- (1 / 10)) = - (3602879701896397 / 36028797018963968)"
  by code_simp+

lemma parseFloat_values:
  "parseFloat ''1.5'' = 3 / 2"
  "parseFloat ''8'' = 8"
  "parseFloat ''1.'' = 1"
  "parseFloat ''1.70000000000000001'' = binary64 (17 / 10)"
  "binary64 (17 / 10) < parseFloat ''1.7000000000000002''"
  by code_simp+

section \<open>Properties of the filter patterns\<close>

text \<open>
  The patterns recognise the atoms of the filter language. When the text after the
  leftmost occurrence of a field name is the rest of a well-formed atom (one space,
  the operator, one space, the number, and then no further digit), the pattern's
  leftmost match is that atom and its capture is the number; likewise for
  \<open>brand:X\<close> with \<open>X\<close> running up to the next white space. A text in which a field
  name does not occur has no match of that field's pattern.
\<close>

lemma firstMatch_after_field:
  assumes "firstMatch (stripPrefix kw) fs = Some rest" and "g rest = Some v"
  shows "firstMatch (\<lambda>s. case stripPrefix kw s of None \<Rightarrow> None | Some r \<Rightarrow> g r) fs = Some v"
  using assms
proof (induction fs)
  case Nil
  then show ?case by simp
next
  case (Cons c cs)
  then show ?case by (cases "stripPrefix kw (c # cs)") simp_all
qed

lemma firstMatch_no_field:
  assumes "\<not> js_includes fs kw"
  shows "firstMatch (\<lambda>s. case stripPrefix kw s of None \<Rightarrow> None | Some r \<Rightarrow> g r) fs = None"
  using assms unfolding js_includes_def
proof (induction fs)
  case Nil
  then show ?case by simp
next
  case (Cons c cs)
  then show ?case by (cases "stripPrefix kw (c # cs)") simp_all
qed

lemma digit_not_space: "isDigit c \<Longrightarrow> \<not> isSpace c"
  by (auto simp add: isDigit_def isSpace_def)

lemma takeWhile_digits:
  assumes "list_all isDigit ds" and "post = [] \<or> \<not> isDigit (hd post)"
  shows "takeWhile isDigit (ds @ post) = ds" "dropWhile isDigit (ds @ post) = post"
proof -
  have all: "\<And>x. x \<in> set ds \<Longrightarrow> isDigit x" using assms(1) by (simp add: list_all_iff)
  have t: "takeWhile isDigit post = []" and d: "dropWhile isDigit post = post"
    using assms(2) by (cases post; simp)+
  show "takeWhile isDigit (ds @ post) = ds" using all t by (simp add: takeWhile_append2)
  show "dropWhile isDigit (ds @ post) = post" using all d by (simp add: dropWhile_append2)
qed

lemma afterOperator_atom:
  assumes "ds \<noteq> []" and "list_all isDigit ds" and "opc = CHR ''<'' \<or> opc = CHR ''>''"
  shows "afterOperator opc (CHR 0x20 # opc # CHR 0x20 # ds @ post) = ds @ post"
proof -
  from assms(1,2) obtain d ds' where ds: "ds = d # ds'" and d: "isDigit d"
    by (cases ds) auto
  have nsp: "\<not> isSpace d" using d by (rule digit_not_space)
  from assms(3) have "\<not> isSpace opc" by (auto simp add: isSpace_def)
  then show ?thesis using nsp by (simp add: afterOperator_def ds isSpace_def)
qed

lemma integerCapture_digits:
  assumes "ds \<noteq> []" and "list_all isDigit ds" and "post = [] \<or> \<not> isDigit (hd post)"
  shows "integerCapture (ds @ post) = Some ds"
  using assms by (simp add: integerCapture_def takeWhile_digits)

lemma decimalCapture_integer:
  assumes "ds \<noteq> []" and "list_all isDigit ds"
    and "post = [] \<or> (\<not> isDigit (hd post) \<and> hd post \<noteq> CHR ''.'')"
  shows "decimalCapture (ds @ post) = Some ds"
proof -
  from assms(3) have p: "post = [] \<or> \<not> isDigit (hd post)" by blast
  have a: "takeWhile isDigit (ds @ post) = ds" "dropWhile isDigit (ds @ post) = post"
    using takeWhile_digits[OF assms(2) p] by simp_all
  show ?thesis
    unfolding decimalCapture_def a Let_def
    using assms(1,3) by (cases post) simp_all
qed

lemma decimalCapture_fraction:
  assumes "ds \<noteq> []" and "list_all isDigit ds" and "list_all isDigit fr"
    and "post = [] \<or> \<not> isDigit (hd post)"
  shows "decimalCapture (ds @ CHR ''.'' # fr @ post) = Some (ds @ CHR ''.'' # fr)"
proof -
  have nd: "\<not> isDigit (CHR ''.'')" by (simp add: isDigit_def)
  have a: "takeWhile isDigit (ds @ CHR ''.'' # fr @ post) = ds"
    "dropWhile isDigit (ds @ CHR ''.'' # fr @ post) = CHR ''.'' # fr @ post"
    using takeWhile_digits[OF assms(2), of "CHR ''.'' # fr @ post"] nd by simp_all
  show ?thesis
    using assms(1) by (simp add: decimalCapture_def a takeWhile_digits[OF assms(3,4)])
qed

lemma budgetMatch_atom:
  assumes "firstMatch (stripPrefix ''price_sale'') fs = Some ('' < '' @ B @ post)"
    and "B \<noteq> []" and "list_all isDigit B" and "post = [] \<or> \<not> isDigit (hd post)"
  shows "budgetMatch fs = Some B"
  unfolding budgetMatch_def
  using assms(1)
proof (rule firstMatch_after_field)
  show "integerCapture (afterOperator CHR ''<'' ('' < '' @ B @ post)) = Some B"
    using afterOperator_atom[OF assms(2,3), of "CHR ''<''" post]
      integerCapture_digits[OF assms(2,3,4)] by simp
qed

lemma weightMatch_atom:
  assumes "firstMatch (stripPrefix ''weight_kg'') fs = Some ('' < '' @ W @ CHR ''.'' # F @ post)"
    and "W \<noteq> []" and "list_all isDigit W" and "list_all isDigit F"
    and "post = [] \<or> \<not> isDigit (hd post)"
  shows "weightMatch fs = Some (W @ CHR ''.'' # F)"
  unfolding weightMatch_def
  using assms(1)
proof (rule firstMatch_after_field)
  show "decimalCapture (afterOperator CHR ''<'' ('' < '' @ W @ CHR ''.'' # F @ post))
      = Some (W @ CHR ''.'' # F)"
    using afterOperator_atom[OF assms(2,3), of "CHR ''<''" "CHR ''.'' # F @ post"]
      decimalCapture_fraction[OF assms(2,3,4,5)] by simp
qed

lemma batteryMatch_atom:
  assumes "firstMatch (stripPrefix ''battery_hours'') fs = Some ('' > '' @ H @ post)"
    and "H \<noteq> []" and "list_all isDigit H"
    and "post = [] \<or> (\<not> isDigit (hd post) \<and> hd post \<noteq> CHR ''.'')"
  shows "batteryMatch fs = Some H"
  unfolding batteryMatch_def
  using assms(1)
proof (rule firstMatch_after_field)
  show "decimalCapture (afterOperator CHR ''>'' ('' > '' @ H @ post)) = Some H"
    using afterOperator_atom[OF assms(2,3), of "CHR ''>''" post]
      decimalCapture_integer[OF assms(2,3,4)] by simp
qed

lemma brandMatch_atom:
  assumes "firstMatch (stripPrefix ''brand:'') fs = Some (X @ post)"
    and "X \<noteq> []" and "list_all (\<lambda>c. \<not> isSpace c) X" and "post = [] \<or> isSpace (hd post)"
  shows "brandMatch fs = Some X"
  unfolding brandMatch_def
  using assms(1)
proof (rule firstMatch_after_field)
  have all: "\<And>x. x \<in> set X \<Longrightarrow> \<not> isSpace x" using assms(3) by (simp add: list_all_iff)
  have t: "takeWhile (\<lambda>c. \<not> isSpace c) post = []" using assms(4) by (cases post) simp_all
  have "takeWhile (\<lambda>c. \<not> isSpace c) (X @ post) = X"
    using all t by (simp add: takeWhile_append2)
  then show "(let v = takeWhile (\<lambda>c. \<not> isSpace c) (X @ post) in if v = [] then None else Some v)
      = Some X"
    using assms(2) by simp
qed

lemma unrecognised_fields:
  assumes "\<not> js_includes fs ''price_sale''" "\<not> js_includes fs ''weight_kg''"
    "\<not> js_includes fs ''battery_hours''" "\<not> js_includes fs ''brand:''"
  shows "budgetMatch fs = None" "weightMatch fs = None" "batteryMatch fs = None"
    "brandMatch fs = None"
  using assms
  by (simp_all add: budgetMatch_def weightMatch_def batteryMatch_def brandMatch_def
      firstMatch_no_field)

section \<open>Properties of the fallback search\<close>

lemma set_slice0: "set (slice0 xs e) \<subseteq> set xs"
  by (simp add: slice0_def Let_def set_take_subset)

lemma slice0_nonneg: "0 \<le> e \<Longrightarrow> slice0 xs e = take (nat e) xs"
  by (auto simp add: slice0_def Let_def min_def)

lemma applyFilters_budget:
  "budgetMatch fs = Some m \<Longrightarrow> p \<in> set (applyFilters fs xs) \<Longrightarrow> price_sale p < parseInt m"
  by (auto simp add: applyFilters_def Let_def split: option.splits if_splits)

lemma applyFilters_weight:
  "weightMatch fs = Some m \<Longrightarrow> p \<in> set (applyFilters fs xs) \<Longrightarrow> weight_kg p < parseFloat m"
  by (auto simp add: applyFilters_def Let_def split: option.splits if_splits)

lemma applyFilters_battery:
  "batteryMatch fs = Some m \<Longrightarrow> p \<in> set (applyFilters fs xs) \<Longrightarrow> parseFloat m < battery_hours p"
  by (auto simp add: applyFilters_def Let_def split: option.splits if_splits)

lemma applyFilters_stock:
  "js_includes fs ''in_stock:true'' \<Longrightarrow> p \<in> set (applyFilters fs xs) \<Longrightarrow> in_stock p"
  by (auto simp add: applyFilters_def Let_def split: option.splits if_splits)

lemma applyFilters_brand:
  "brandMatch fs = Some m \<Longrightarrow> p \<in> set (applyFilters fs xs)
   \<Longrightarrow> toUpperCase (brand p) = toUpperCase m"
  by (auto simp add: applyFilters_def Let_def split: option.splits if_splits)

lemma textSearch_subset: "set (textSearch q xs) \<subseteq> set xs"
  by (auto simp add: textSearch_def Let_def)

lemma demoMatches_filtered:
  assumes "filters r = Some fs" and "fs \<noteq> []" and "p \<in> set (demoMatches (Some r))"
  shows "p \<in> set (applyFilters fs DEMO_PRODUCTS)"
  using assms textSearch_subset[of "the (query r)" "applyFilters fs DEMO_PRODUCTS"]
  by (auto simp add: demoMatches_def Let_def split: option.splits if_splits)

lemma hits_in_demoMatches:
  "set (hits (searchDemoProducts params)) \<subseteq> set (demoMatches params)"
  by (simp add: searchDemoProducts_def Let_def set_slice0)

lemma patterns_on_empty_text:
  "budgetMatch [] = None" "weightMatch [] = None" "batteryMatch [] = None"
  "brandMatch [] = None" "\<not> js_includes [] ''in_stock:true''"
  by (simp_all add: budgetMatch_def weightMatch_def batteryMatch_def brandMatch_def
      js_includes_def)

lemma total_searchDemoProducts:
  "total (searchDemoProducts params) = int (length (demoMatches params))"
  by (simp add: searchDemoProducts_def Let_def)

lemma hits_searchDemoProducts:
  "hitsPerPage r = Some n \<Longrightarrow>
   hits (searchDemoProducts (Some r)) = slice0 (demoMatches (Some r)) n"
  by (simp add: searchDemoProducts_def Let_def)

text \<open>
  Claim C2, as the code has it. Each filter pattern is matched once, at its leftmost
  match in the filters text, and the hits satisfy the predicate of that match: with
  \<open>m\<close> the capture of the leftmost \<open>price_sale\<close> match every hit has
  \<open>price_sale < m\<close>; likewise \<open>weight_kg < m\<close> and \<open>battery_hours > m\<close> for the
  leftmost \<open>weight_kg\<close> and \<open>battery_hours\<close> matches; the brand of every hit equals the
  capture of the leftmost \<open>brand:\<close> match up to letter case; and every hit is in stock
  when the text contains \<open>in_stock:true\<close>.
\<close>

theorem C2_hits_satisfy_leftmost_atoms:
  assumes "filters r = Some fs" and "p \<in> set (hits (searchDemoProducts (Some r)))"
  shows "(\<forall>m. budgetMatch fs = Some m \<longrightarrow> price_sale p < parseInt m)
       \<and> (\<forall>m. weightMatch fs = Some m \<longrightarrow> weight_kg p < parseFloat m)
       \<and> (\<forall>m. batteryMatch fs = Some m \<longrightarrow> battery_hours p > parseFloat m)
       \<and> (\<forall>m. brandMatch fs = Some m \<longrightarrow> toUpperCase (brand p) = toUpperCase m)
       \<and> (js_includes fs ''in_stock:true'' \<longrightarrow> in_stock p)"
proof (cases "fs = []")
  case True
  then show ?thesis by (simp add: patterns_on_empty_text)
next
  case False
  from assms(2) hits_in_demoMatches have "p \<in> set (demoMatches (Some r))" by blast
  with assms(1) False have mem: "p \<in> set (applyFilters fs DEMO_PRODUCTS)"
    by (rule demoMatches_filtered)
  show ?thesis
    using applyFilters_budget[OF _ mem] applyFilters_weight[OF _ mem]
      applyFilters_battery[OF _ mem] applyFilters_brand[OF _ mem] applyFilters_stock[OF _ mem]
    by blast
qed

text \<open>The theorem of C2 at the filters text
  \<open>price_sale < 2500000 AND weight_kg < 1.5 AND battery_hours > 8 AND brand:asus AND in_stock:true\<close>:
  the one hit is the ASUS laptop, and it satisfies all five predicates.\<close>

theorem C2_hits_satisfy_leftmost_atoms_witness:
  "DEMO_PRODUCTS ! 1 \<in> set (hits (searchDemoProducts (Some
      \<lparr>query = None,
       filters = Some ''price_sale < 2500000 AND weight_kg < 1.5 AND battery_hours > 8 AND brand:asus AND in_stock:true'',
       hitsPerPage = None, attributesToRetrieve = None\<rparr>)))
   \<and> price_sale (DEMO_PRODUCTS ! 1) < parseInt ''2500000''
   \<and> weight_kg (DEMO_PRODUCTS ! 1) < parseFloat ''1.5''
   \<and> battery_hours (DEMO_PRODUCTS ! 1) > parseFloat ''8''
   \<and> toUpperCase (brand (DEMO_PRODUCTS ! 1)) = toUpperCase ''asus''
   \<and> in_stock (DEMO_PRODUCTS ! 1)"
proof -
  let ?fs = "''price_sale < 2500000 AND weight_kg < 1.5 AND battery_hours > 8 AND brand:asus AND in_stock:true''"
  let ?r = "\<lparr>query = None, filters = Some ?fs, hitsPerPage = None, attributesToRetrieve = None\<rparr>"
  have mem: "DEMO_PRODUCTS ! 1 \<in> set (hits (searchDemoProducts (Some ?r)))"
    by code_simp
  have m1: "budgetMatch ?fs = Some ''2500000''" by code_simp
  have m2: "weightMatch ?fs = Some ''1.5''" by code_simp
  have m3: "batteryMatch ?fs = Some ''8''" by code_simp
  have m4: "brandMatch ?fs = Some ''asus''" by code_simp
  have m5: "js_includes ?fs ''in_stock:true''" by code_simp
  have f: "filters ?r = Some ?fs" by simp
  from C2_hits_satisfy_leftmost_atoms[OF f mem] m1 m2 m3 m4 m5 mem show ?thesis
    by blast
qed

text \<open>
  Claim C2 as stated fails where the filters text holds two atoms for one field. The
  text \<open>price_sale < 3000000 AND price_sale < 2000000\<close> contains the atom
  \<open>price_sale < 2000000\<close>, only the leftmost atom is applied, and the hits are the
  four laptops under 3000000, two of which cost 2000000 or more.
\<close>

theorem C2_second_atom_not_enforced:
  "js_includes ''price_sale < 3000000 AND price_sale < 2000000'' ''price_sale < 2000000''
   \<and> map price_sale (hits (searchDemoProducts (Some
        \<lparr>query = None, filters = Some ''price_sale < 3000000 AND price_sale < 2000000'',
         hitsPerPage = None, attributesToRetrieve = None\<rparr>)))
     = [1799000, 1999000, 2299000, 2499000]
   \<and> \<not> (2299000 :: int) < parseInt ''2000000''"
  by code_simp

lemma applyFilters_none:
  assumes "budgetMatch fs = None" "weightMatch fs = None" "batteryMatch fs = None"
    "brandMatch fs = None" "\<not> js_includes fs ''in_stock:true''"
  shows "applyFilters fs xs = xs"
  using assms by (simp add: applyFilters_def)

lemma demoMatches_unrecognised:
  assumes "budgetMatch fs = None" "weightMatch fs = None" "batteryMatch fs = None"
    "brandMatch fs = None" "\<not> js_includes fs ''in_stock:true''"
  shows "demoMatches (Some (r\<lparr>filters := Some fs\<rparr>)) = demoMatches (Some (r\<lparr>filters := None\<rparr>))"
  using applyFilters_none[OF assms] by (simp add: demoMatches_def Let_def)

lemma searchDemoProducts_unrecognised:
  assumes "budgetMatch fs = None" "weightMatch fs = None" "batteryMatch fs = None"
    "brandMatch fs = None" "\<not> js_includes fs ''in_stock:true''"
  shows "searchDemoProducts (Some (r\<lparr>filters := Some fs\<rparr>))
       = searchDemoProducts (Some (r\<lparr>filters := None\<rparr>))"
  using demoMatches_unrecognised[OF assms] by (simp add: searchDemoProducts_def Let_def)

lemma demoMatches_no_filters:
  assumes "filters r = None \<or> filters r = Some []"
  shows "demoMatches (Some r) =
     sort_key price_sale
       (case query r of
          None \<Rightarrow> DEMO_PRODUCTS
        | Some q \<Rightarrow> if q \<noteq> [] \<and> q \<noteq> ''laptop'' then textSearch q DEMO_PRODUCTS
                    else DEMO_PRODUCTS)"
  using assms by (auto simp add: demoMatches_def Let_def split: option.splits)

lemma demoMatches_null: "demoMatches None = sort_key price_sale DEMO_PRODUCTS"
  by (simp add: demoMatches_def emptyRequest_def)

section \<open>What the fallback search counts\<close>

text \<open>The filter stage and the text search keep exactly the products that match, so the
  search's result list is the matching products of the dataset in price order.\<close>

lemma applyFilters_matchesFilters: "applyFilters fs xs = filter (matchesFilters fs) xs"
  by (auto simp add: applyFilters_def matchesFilters_def Let_def split: option.splits
      intro!: filter_cong)

lemma matchesFilters_empty: "matchesFilters [] p"
  by (simp add: matchesFilters_def patterns_on_empty_text)

lemma textSearch_matchesQuery:
  "q \<noteq> [] \<Longrightarrow> q \<noteq> ''laptop'' \<Longrightarrow> textSearch q xs = filter (matchesQuery q) xs"
  by (auto simp add: textSearch_def matchesQuery_def Let_def intro!: filter_cong)

lemma matchesQuery_sentinel: "matchesQuery [] p" "matchesQuery ''laptop'' p"
  by (simp_all add: matchesQuery_def)

lemma demoMatches_matchesRequest:
  "demoMatches (Some r) = sort_key price_sale (filter (matchesRequest r) DEMO_PRODUCTS)"
proof -
  define fs where "fs = (case filters r of None \<Rightarrow> [] | Some s \<Rightarrow> s)"
  define q where "q = (case query r of None \<Rightarrow> [] | Some s \<Rightarrow> s)"
  have a: "(if fs \<noteq> [] then applyFilters fs DEMO_PRODUCTS else DEMO_PRODUCTS)
      = filter (matchesFilters fs) DEMO_PRODUCTS"
    by (simp add: applyFilters_matchesFilters matchesFilters_empty)
  have b: "(if q \<noteq> [] \<and> q \<noteq> ''laptop'' then textSearch q xs else xs)
      = filter (matchesQuery q) xs" for xs
    using textSearch_matchesQuery[of q xs] matchesQuery_sentinel by auto
  have "demoMatches (Some r)
      = sort_key price_sale
          (if q \<noteq> [] \<and> q \<noteq> ''laptop''
           then textSearch q (if fs \<noteq> [] then applyFilters fs DEMO_PRODUCTS else DEMO_PRODUCTS)
           else (if fs \<noteq> [] then applyFilters fs DEMO_PRODUCTS else DEMO_PRODUCTS))"
    by (simp add: demoMatches_def Let_def fs_def q_def)
  also have "\<dots> = sort_key price_sale
      (filter (matchesQuery q) (filter (matchesFilters fs) DEMO_PRODUCTS))"
    unfolding b a ..
  also have "filter (matchesQuery q) (filter (matchesFilters fs) DEMO_PRODUCTS)
      = filter (matchesRequest r) DEMO_PRODUCTS"
    by (auto simp add: matchesRequest_def fs_def q_def intro!: filter_cong)
  finally show ?thesis .
qed

text \<open>A weight literal is compared as the double it is read as: \<open>1.70000000000000001\<close>
  is \<open>1.7\<close>, and the laptop of \<open>1.70\<close> kg is not below it.\<close>

lemma weight_literal_is_rounded:
  "map objectID (hits (searchDemoProducts (Some
      \<lparr>query = None, filters = Some ''weight_kg < 1.70000000000000001'',
       hitsPerPage = None, attributesToRetrieve = None\<rparr>))) = [''demo-2'', ''demo-1'', ''demo-4'']"
  by code_simp

text \<open>
  Claim C5, as the code has it. For a request with a positive \<open>hitsPerPage = n\<close> the
  fallback search returns at most \<open>n\<close> hits: the first \<open>n\<close>, in ascending price order, of
  the products that match the request, where a product matches when it satisfies the
  predicate of the leftmost match of each filter pattern and its name contains a piece
  of the query. \<open>total\<close> is the number of the matching products before that truncation,
  so it is never below the number of hits.
\<close>

theorem C5_total_counts_leftmost_matches:
  assumes "hitsPerPage r = Some n" and "0 < n"
  shows "int (length (hits (searchDemoProducts (Some r)))) \<le> n
       \<and> hits (searchDemoProducts (Some r))
           = take (nat n) (sort_key price_sale (filter (matchesRequest r) DEMO_PRODUCTS))
       \<and> total (searchDemoProducts (Some r))
           = int (length (filter (matchesRequest r) DEMO_PRODUCTS))
       \<and> int (length (hits (searchDemoProducts (Some r)))) \<le> total (searchDemoProducts (Some r))"
proof -
  have h: "hits (searchDemoProducts (Some r))
      = take (nat n) (sort_key price_sale (filter (matchesRequest r) DEMO_PRODUCTS))"
    using assms by (simp add: hits_searchDemoProducts slice0_nonneg demoMatches_matchesRequest)
  have t: "total (searchDemoProducts (Some r))
      = int (length (filter (matchesRequest r) DEMO_PRODUCTS))"
    by (simp add: total_searchDemoProducts demoMatches_matchesRequest)
  show ?thesis unfolding h t using assms(2) by simp
qed

text \<open>The theorem of C5 at the filters text \<open>price_sale < 3000000\<close>, the query \<open>intel\<close>
  and \<open>hitsPerPage = 2\<close>: three products match (the ASUS laptop is under the budget but
  has no Intel processor, the MacBook is neither), the two cheapest are the hits, and
  the total is three.\<close>

theorem C5_total_counts_leftmost_matches_witness:
  "map objectID (hits (searchDemoProducts (Some
      \<lparr>query = Some ''intel'', filters = Some ''price_sale < 3000000'',
       hitsPerPage = Some 2, attributesToRetrieve = None\<rparr>))) = [''demo-3'', ''demo-5'']
   \<and> total (searchDemoProducts (Some
      \<lparr>query = Some ''intel'', filters = Some ''price_sale < 3000000'',
       hitsPerPage = Some 2, attributesToRetrieve = None\<rparr>)) = 3
   \<and> map objectID (filter (matchesRequest
      \<lparr>query = Some ''intel'', filters = Some ''price_sale < 3000000'',
       hitsPerPage = Some 2, attributesToRetrieve = None\<rparr>) DEMO_PRODUCTS)
       = [''demo-1'', ''demo-3'', ''demo-5'']"
proof -
  let ?r = "\<lparr>query = Some ''intel'', filters = Some ''price_sale < 3000000'',
       hitsPerPage = Some 2, attributesToRetrieve = None\<rparr>"
  have m: "map objectID (filter (matchesRequest ?r) DEMO_PRODUCTS)
      = [''demo-1'', ''demo-3'', ''demo-5'']"
    by code_simp
  have s: "map objectID (take (nat 2) (sort_key price_sale (filter (matchesRequest ?r) DEMO_PRODUCTS)))
      = [''demo-3'', ''demo-5'']"
    by code_simp
  have l: "length (filter (matchesRequest ?r) DEMO_PRODUCTS) = 3"
    using arg_cong[OF m, of length] by simp
  have "hitsPerPage ?r = Some 2" and "(0 :: int) < 2" by simp_all
  from C5_total_counts_leftmost_matches[OF this] m s l show ?thesis by simp
qed

text \<open>
  Claim C5 as stated fails where the filters text holds two atoms for one field. The
  text \<open>price_sale < 3000000 AND price_sale < 2000000\<close> is the conjunction of two
  atoms, two products of the dataset satisfy both, and the total is four: only the
  leftmost atom of a field is counted against.
\<close>

theorem C5_total_counts_products_failing_an_atom:
  "conjunction [''price_sale < 3000000'', ''price_sale < 2000000'']
     = ''price_sale < 3000000 AND price_sale < 2000000''
   \<and> total (searchDemoProducts (Some
        \<lparr>query = None, filters = Some ''price_sale < 3000000 AND price_sale < 2000000'',
         hitsPerPage = Some 5, attributesToRetrieve = None\<rparr>)) = 4
   \<and> length (filter (satisfiesAll [PriceBelow 3000000, PriceBelow 2000000]) DEMO_PRODUCTS) = 2"
  by code_simp

section \<open>Atoms in a conjunction\<close>

text \<open>
  No field name contains a space, and a number or a brand ends at a space at the
  latest, so a match never runs across the separator \<open>AND\<close>, and an operator without
  its number finds none behind it. The leftmost match of a pattern in a conjunction is
  therefore its match in the first atom that has one, and an atom without a match may
  be struck from the conjunction.
\<close>

lemma stripPrefix_before_space:
  "CHR 0x20 \<notin> set kw \<Longrightarrow>
   stripPrefix kw (s @ CHR 0x20 # y) = map_option (\<lambda>r. r @ CHR 0x20 # y) (stripPrefix kw s)"
proof (induction kw s rule: stripPrefix.induct)
  case (1 s)
  then show ?case by simp
next
  case (2 p ps)
  then show ?case by auto
next
  case (3 p ps c cs)
  then show ?case by simp
qed

lemma dropWhile_before:
  "dropWhile P (xs @ ys) = (if dropWhile P xs = [] then dropWhile P ys else dropWhile P xs @ ys)"
  by (induction xs) simp_all

lemma space_A: "isSpace (CHR 0x20)" "\<not> isSpace (CHR ''A'')" "\<not> isDigit (CHR 0x20)"
  "\<not> isDigit (CHR ''A'')"
  by (simp_all add: isSpace_def isDigit_def)

lemma dropSpace_before_A:
  "dropWhile isSpace (x @ CHR 0x20 # CHR ''A'' # y)
     = (if dropWhile isSpace x = [] then CHR ''A'' # y
        else dropWhile isSpace x @ CHR 0x20 # CHR ''A'' # y)"
  by (simp add: dropWhile_before space_A del: dropWhile_eq_Nil_conv)

lemma afterOperator_before_A:
  assumes "opc \<noteq> CHR ''A''"
  shows "afterOperator opc (r @ CHR 0x20 # CHR ''A'' # y)
       = (if afterOperator opc r = [] then CHR ''A'' # y
          else afterOperator opc r @ CHR 0x20 # CHR ''A'' # y)"
proof (cases "dropWhile isSpace r")
  case Nil
  show ?thesis
    unfolding afterOperator_def Let_def dropSpace_before_A Nil
    using assms by (simp add: space_A)
next
  case (Cons c t)
  show ?thesis
  proof (cases "c = opc")
    case True
    show ?thesis
      unfolding afterOperator_def Let_def dropSpace_before_A Cons
      using True by (simp add: dropSpace_before_A del: dropWhile_eq_Nil_conv)
  next
    case False
    from Cons have "\<not> isSpace c"
      by (metis dropWhile_eq_Cons_conv)
    then show ?thesis
      unfolding afterOperator_def Let_def dropSpace_before_A Cons
      using False by simp
  qed
qed

lemma integerCapture_before_space:
  "integerCapture (t @ CHR 0x20 # y) = integerCapture t"
  "integerCapture (CHR ''A'' # y) = None"
  by (simp_all add: integerCapture_def takeWhile_tail space_A)

lemma decimalCapture_before_space:
  "decimalCapture (t @ CHR 0x20 # y) = decimalCapture t"
  "decimalCapture (CHR ''A'' # y) = None"
proof -
  have tw: "takeWhile isDigit (x @ CHR 0x20 # z) = takeWhile isDigit x" for x z
    by (simp add: takeWhile_tail space_A)
  have dw: "dropWhile isDigit (t @ CHR 0x20 # y)
      = (if dropWhile isDigit t = [] then CHR 0x20 # y else dropWhile isDigit t @ CHR 0x20 # y)"
    by (simp add: dropWhile_before space_A del: dropWhile_eq_Nil_conv)
  show "decimalCapture (t @ CHR 0x20 # y) = decimalCapture t"
  proof (cases "dropWhile isDigit t")
    case Nil
    show ?thesis unfolding decimalCapture_def Let_def tw dw Nil by simp
  next
    case (Cons c u)
    show ?thesis unfolding decimalCapture_def Let_def tw dw Cons by (simp add: tw)
  qed
  show "decimalCapture (CHR ''A'' # y) = None"
    by (simp add: decimalCapture_def space_A)
qed

lemma numberCapture_before_AND:
  assumes "opc \<noteq> CHR ''A''"
  shows "integerCapture (afterOperator opc (r @ CHR 0x20 # CHR ''A'' # y))
       = integerCapture (afterOperator opc r)"
    and "decimalCapture (afterOperator opc (r @ CHR 0x20 # CHR ''A'' # y))
       = decimalCapture (afterOperator opc r)"
proof -
  have e: "integerCapture [] = None" "decimalCapture [] = None"
    by (simp_all add: integerCapture_def decimalCapture_def)
  show "integerCapture (afterOperator opc (r @ CHR 0x20 # CHR ''A'' # y))
       = integerCapture (afterOperator opc r)"
    by (cases "afterOperator opc r = []")
      (simp_all add: afterOperator_before_A[OF assms] integerCapture_before_space e)
  show "decimalCapture (afterOperator opc (r @ CHR 0x20 # CHR ''A'' # y))
       = decimalCapture (afterOperator opc r)"
    by (cases "afterOperator opc r = []")
      (simp_all add: afterOperator_before_A[OF assms] decimalCapture_before_space e)
qed

lemma brandCapture_before_space:
  "takeWhile (\<lambda>c. \<not> isSpace c) (r @ CHR 0x20 # y) = takeWhile (\<lambda>c. \<not> isSpace c) r"
  by (simp add: takeWhile_tail space_A)

lemma firstMatch_before_AND:
  fixes g :: "string \<Rightarrow> 'a option"
  assumes kw: "kw \<noteq> []" "CHR 0x20 \<notin> set kw" "hd kw \<notin> set ''AND''"
    and g: "\<And>r. g (r @ CHR 0x20 # CHR ''A'' # CHR ''N'' # CHR ''D'' # CHR 0x20 # w) = g r"
  shows "firstMatch (\<lambda>s. case stripPrefix kw s of None \<Rightarrow> None | Some r \<Rightarrow> g r) (s @ '' AND '' @ w)
       = (case firstMatch (\<lambda>s. case stripPrefix kw s of None \<Rightarrow> None | Some r \<Rightarrow> g r) s of
            Some v \<Rightarrow> Some v
          | None \<Rightarrow> firstMatch (\<lambda>s. case stripPrefix kw s of None \<Rightarrow> None | Some r \<Rightarrow> g r) w)"
    (is "firstMatch ?M _ = _")
proof -
  from kw obtain p ps where k: "kw = p # ps" and p: "p \<noteq> CHR 0x20" "p \<noteq> CHR ''A''"
    "p \<noteq> CHR ''N''" "p \<noteq> CHR ''D''"
    by (cases kw) auto
  have stable: "?M (x @ '' AND '' @ w) = ?M x" for x
  proof -
    have "stripPrefix kw (x @ CHR 0x20 # ''AND '' @ w)
        = map_option (\<lambda>r. r @ CHR 0x20 # ''AND '' @ w) (stripPrefix kw x)"
      using kw(2) by (rule stripPrefix_before_space)
    then show ?thesis
      using g by (cases "stripPrefix kw x") simp_all
  qed
  show ?thesis
  proof (induction s)
    case Nil
    then show ?case using p by (simp add: k)
  next
    case (Cons c cs)
    have "?M ((c # cs) @ '' AND '' @ w) = ?M (c # cs)" by (rule stable)
    then show ?case using Cons by (cases "?M (c # cs)") simp_all
  qed
qed

lemma budgetMatch_before_AND:
  "budgetMatch (s @ '' AND '' @ w)
     = (case budgetMatch s of Some v \<Rightarrow> Some v | None \<Rightarrow> budgetMatch w)"
  unfolding budgetMatch_def
  by (rule firstMatch_before_AND)
    (simp_all add: numberCapture_before_AND)

lemma weightMatch_before_AND:
  "weightMatch (s @ '' AND '' @ w)
     = (case weightMatch s of Some v \<Rightarrow> Some v | None \<Rightarrow> weightMatch w)"
  unfolding weightMatch_def
  by (rule firstMatch_before_AND)
    (simp_all add: numberCapture_before_AND)

lemma batteryMatch_before_AND:
  "batteryMatch (s @ '' AND '' @ w)
     = (case batteryMatch s of Some v \<Rightarrow> Some v | None \<Rightarrow> batteryMatch w)"
  unfolding batteryMatch_def
  by (rule firstMatch_before_AND)
    (simp_all add: numberCapture_before_AND)

lemma brandMatch_before_AND:
  "brandMatch (s @ '' AND '' @ w)
     = (case brandMatch s of Some v \<Rightarrow> Some v | None \<Rightarrow> brandMatch w)"
  unfolding brandMatch_def
  by (rule firstMatch_before_AND) (simp_all add: brandCapture_before_space)

lemma js_includes_as_match:
  "js_includes s kw
     = (firstMatch (\<lambda>s. case stripPrefix kw s of None \<Rightarrow> None | Some r \<Rightarrow> Some ()) s \<noteq> None)"
  unfolding js_includes_def
proof (induction s)
  case Nil
  then show ?case by (cases "stripPrefix kw []") simp_all
next
  case (Cons c cs)
  then show ?case by (cases "stripPrefix kw (c # cs)") simp_all
qed

lemma stock_before_AND:
  "js_includes (s @ '' AND '' @ w) ''in_stock:true''
     = (js_includes s ''in_stock:true'' \<or> js_includes w ''in_stock:true'')"
proof -
  let ?M = "\<lambda>s. case stripPrefix ''in_stock:true'' s of None \<Rightarrow> None | Some r \<Rightarrow> Some ()"
  have "firstMatch ?M (s @ '' AND '' @ w)
      = (case firstMatch ?M s of Some v \<Rightarrow> Some v | None \<Rightarrow> firstMatch ?M w)"
    by (rule firstMatch_before_AND) simp_all
  then show ?thesis
    unfolding js_includes_as_match by (cases "firstMatch ?M s") simp_all
qed

lemma firstSome_skip: "f u = None \<Longrightarrow> firstSome f (xs @ u # ys) = firstSome f (xs @ ys)"
  by (induction xs) (simp_all split: option.splits)

lemma pattern_conjunction:
  assumes "m [] = None"
    and "\<And>s w. m (s @ '' AND '' @ w) = (case m s of Some v \<Rightarrow> Some v | None \<Rightarrow> m w)"
  shows "m (conjunction xs) = firstSome m xs"
proof (induction xs rule: conjunction.induct)
  case 1
  show ?case using assms(1) by simp
next
  case (2 a)
  show ?case by (simp split: option.splits)
next
  case (3 a b bs)
  have "m (conjunction (a # b # bs))
      = (case m a of Some v \<Rightarrow> Some v | None \<Rightarrow> m (conjunction (b # bs)))"
    unfolding conjunction.simps by (rule assms(2))
  also have "m (conjunction (b # bs)) = firstSome m (b # bs)" by (rule 3)
  finally show ?case by simp
qed

lemma budgetMatch_conjunction: "budgetMatch (conjunction xs) = firstSome budgetMatch xs"
  by (rule pattern_conjunction) (simp add: patterns_on_empty_text, rule budgetMatch_before_AND)

lemma weightMatch_conjunction: "weightMatch (conjunction xs) = firstSome weightMatch xs"
  by (rule pattern_conjunction) (simp add: patterns_on_empty_text, rule weightMatch_before_AND)

lemma batteryMatch_conjunction: "batteryMatch (conjunction xs) = firstSome batteryMatch xs"
  by (rule pattern_conjunction) (simp add: patterns_on_empty_text, rule batteryMatch_before_AND)

lemma brandMatch_conjunction: "brandMatch (conjunction xs) = firstSome brandMatch xs"
  by (rule pattern_conjunction) (simp add: patterns_on_empty_text, rule brandMatch_before_AND)

lemma stock_conjunction:
  "js_includes (conjunction xs) ''in_stock:true''
     = list_ex (\<lambda>a. js_includes a ''in_stock:true'') xs"
proof (induction xs rule: conjunction.induct)
  case 1
  show ?case by (simp add: patterns_on_empty_text)
next
  case (2 a)
  show ?case by simp
next
  case (3 a b bs)
  have "js_includes (conjunction (a # b # bs)) ''in_stock:true''
      = (js_includes a ''in_stock:true'' \<or> js_includes (conjunction (b # bs)) ''in_stock:true'')"
    unfolding conjunction.simps by (rule stock_before_AND)
  then show ?case using 3 by simp
qed

lemma matchesFilters_unmatched_atom:
  assumes "budgetMatch u = None" "weightMatch u = None" "batteryMatch u = None"
    "brandMatch u = None" "\<not> js_includes u ''in_stock:true''"
  shows "matchesFilters (conjunction (xs @ u # ys)) = matchesFilters (conjunction (xs @ ys))"
  using assms
  by (intro ext)
    (simp add: matchesFilters_def budgetMatch_conjunction weightMatch_conjunction
      batteryMatch_conjunction brandMatch_conjunction stock_conjunction firstSome_skip)

lemma demoMatches_filters:
  "demoMatches (Some (r\<lparr>filters := Some fs\<rparr>))
     = sort_key price_sale
         (filter (\<lambda>p. matchesFilters fs p
                       \<and> matchesQuery (case query r of None \<Rightarrow> [] | Some q \<Rightarrow> q) p) DEMO_PRODUCTS)"
  by (simp add: demoMatches_matchesRequest matchesRequest_def[abs_def])

lemma searchDemoProducts_unmatched_atom:
  assumes "budgetMatch u = None" "weightMatch u = None" "batteryMatch u = None"
    "brandMatch u = None" "\<not> js_includes u ''in_stock:true''"
  shows "searchDemoProducts (Some (r\<lparr>filters := Some (conjunction (xs @ u # ys))\<rparr>))
       = searchDemoProducts (Some (r\<lparr>filters := Some (conjunction (xs @ ys))\<rparr>))"
  by (simp add: searchDemoProducts_def Let_def demoMatches_filters
      matchesFilters_unmatched_atom[OF assms])

section \<open>Properties of the cache key\<close>

lemma hexDigit_inj: "n < 16 \<Longrightarrow> m < 16 \<Longrightarrow> hexDigit n = hexDigit m \<Longrightarrow> n = m"
proof -
  assume a: "n < 16" "m < 16" "hexDigit n = hexDigit m"
  have d: "distinct ''0123456789abcdef''" by simp
  have l: "length ''0123456789abcdef'' = 16" by simp
  from a d l show ?thesis
    unfolding hexDigit_def by (metis nth_eq_iff_index_eq)
qed

lemma control_code_eq:
  fixes a b :: nat
  assumes "a < 32" "b < 32" "hexDigit (a div 16) = hexDigit (b div 16)"
    "hexDigit (a mod 16) = hexDigit (b mod 16)"
  shows "a = b"
proof -
  have "a div 16 < 16" "b div 16 < 16" using assms(1,2) by auto
  with assms(3) have d: "a div 16 = b div 16" by (rule hexDigit_inj[rotated 2])
  have "a mod 16 = b mod 16" using assms(4) by (intro hexDigit_inj) auto
  with d show ?thesis by (metis div_mult_mod_eq)
qed

lemma jsonEscapeChar_prefix_free:
  assumes "jsonEscapeChar a @ xs = jsonEscapeChar b @ ys"
  shows "a = b \<and> xs = ys"
proof -
  have inj: "(of_char a :: nat) = of_char b \<Longrightarrow> a = b" by simp
  show ?thesis
    using assms control_code_eq[of "of_char a" "of_char b"]
    by (auto simp add: jsonEscapeChar_def split: if_splits)
qed

lemma jsonEscapeChar_nonempty: "jsonEscapeChar c \<noteq> []"
  by (simp add: jsonEscapeChar_def)

lemma jsonEscape_inj:
  "concat (map jsonEscapeChar s) = concat (map jsonEscapeChar t) \<Longrightarrow> s = t"
proof (induction s arbitrary: t)
  case Nil
  then show ?case by (cases t) (simp_all add: jsonEscapeChar_nonempty)
next
  case (Cons a s)
  show ?case
  proof (cases t)
    case Nil
    with Cons.prems show ?thesis by (simp add: jsonEscapeChar_nonempty)
  next
    case (Cons b t')
    with Cons.prems have "jsonEscapeChar a @ concat (map jsonEscapeChar s)
        = jsonEscapeChar b @ concat (map jsonEscapeChar t')" by simp
    then have "a = b \<and> concat (map jsonEscapeChar s) = concat (map jsonEscapeChar t')"
      by (rule jsonEscapeChar_prefix_free)
    with Cons.IH Cons show ?thesis by simp
  qed
qed

lemma jsonString_inj: "jsonString s = jsonString t \<Longrightarrow> s = t"
  by (simp add: jsonString_def jsonEscape_inj)

lemma generateCacheKey_filters_differ:
  assumes "query r1 = query r2" and "hitsPerPage r1 = hitsPerPage r2"
    and "filters r1 = Some f1" and "filters r2 = Some f2" and "f1 \<noteq> f2"
  shows "generateCacheKey (Some r1) \<noteq> generateCacheKey (Some r2)"
proof
  assume eq: "generateCacheKey (Some r1) = generateCacheKey (Some r2)"
  with assms(1-4) have "jsonString f1 = jsonString f2"
    by (simp add: generateCacheKey_def Let_def)
  with assms(5) show False by (simp add: jsonString_inj)
qed

text \<open>
  Claim C6. The cache key does not read \<open>attributesToRetrieve\<close>, so two requests that
  differ only there get the same key; and two requests with the same query and the
  same \<open>hitsPerPage\<close> whose filters are different strings get different keys.
\<close>

theorem C6_cache_key_independence:
  "generateCacheKey (Some (r\<lparr>attributesToRetrieve := a\<rparr>))
     = generateCacheKey (Some (r\<lparr>attributesToRetrieve := b\<rparr>))
   \<and> (query r1 = query r2 \<and> hitsPerPage r1 = hitsPerPage r2
        \<and> filters r1 = Some f1 \<and> filters r2 = Some f2 \<and> f1 \<noteq> f2
      \<longrightarrow> generateCacheKey (Some r1) \<noteq> generateCacheKey (Some r2))"
  using generateCacheKey_filters_differ[of r1 r2 f1 f2]
  by (simp add: generateCacheKey_def)

text \<open>The theorem of C6 at the two requests of the test suite's cache-key test, the
  first of them with a projection list added.\<close>

theorem C6_cache_key_independence_witness:
  "generateCacheKey (Some \<lparr>query = Some ''laptop'', filters = Some ''price_sale < 2000000'',
                            hitsPerPage = None, attributesToRetrieve = Some [''name'']\<rparr>)
   \<noteq> generateCacheKey (Some \<lparr>query = Some ''laptop'', filters = Some ''price_sale < 3000000'',
                            hitsPerPage = None, attributesToRetrieve = None\<rparr>)"
  using C6_cache_key_independence[where ?r1.0 = "\<lparr>query = Some ''laptop'', filters = Some ''price_sale < 2000000'',
                            hitsPerPage = None, attributesToRetrieve = Some [''name'']\<rparr>"
       and ?r2.0 = "\<lparr>query = Some ''laptop'', filters = Some ''price_sale < 3000000'',
                            hitsPerPage = None, attributesToRetrieve = None\<rparr>"
       and ?f1.0 = "''price_sale < 2000000''" and ?f2.0 = "''price_sale < 3000000''"]
  by simp

section \<open>Properties of the gateway and the orchestrator\<close>

lemma performAlgoliaSearch_null:
  "performAlgoliaSearch idx None attempt st = (Inl nullParamsError, st)"
  by (subst performAlgoliaSearch.simps) simp

lemma performAlgoliaSearch_success:
  "idx (indexCalls st) (buildSearchParams p) = Inr r \<Longrightarrow>
   performAlgoliaSearch idx (Some p) attempt st =
     (Inr \<lparr>hits = r_hits r, total = nbHits r, page = r_page r,
           processingTimeMs = processingTimeMS r, source = ''algolia'',
           fallback = None, error = None\<rparr>,
      st\<lparr>indexCalls := indexCalls st + 1\<rparr>)"
  by (subst performAlgoliaSearch.simps) simp

lemma performAlgoliaSearch_retry:
  "idx (indexCalls st) (buildSearchParams p) = Inl e \<Longrightarrow> attempt < 3 \<Longrightarrow>
   performAlgoliaSearch idx (Some p) attempt st =
     performAlgoliaSearch idx (Some p) (attempt + 1)
       (delay (1000 * int attempt) (st\<lparr>indexCalls := indexCalls st + 1\<rparr>))"
  by (subst performAlgoliaSearch.simps) (simp add: CONFIG_def)

lemma performAlgoliaSearch_exhausted:
  "idx (indexCalls st) (buildSearchParams p) = Inl e \<Longrightarrow> \<not> attempt < 3 \<Longrightarrow>
   performAlgoliaSearch idx (Some p) attempt st = (Inl e, st\<lparr>indexCalls := indexCalls st + 1\<rparr>)"
  by (subst performAlgoliaSearch.simps) (simp add: CONFIG_def)

lemma performAlgoliaSearch_frame:
  "searchCache (snd (performAlgoliaSearch idx params attempt st)) = searchCache st
   \<and> analyticsLog (snd (performAlgoliaSearch idx params attempt st)) = analyticsLog st
   \<and> isDemoMode (snd (performAlgoliaSearch idx params attempt st)) = isDemoMode st"
proof (induction idx params attempt st rule: performAlgoliaSearch.induct)
  case (1 idx params attempt st)
  show ?case
  proof (cases params)
    case None
    then show ?thesis by (simp add: performAlgoliaSearch_null)
  next
    case (Some p)
    show ?thesis
    proof (cases "idx (indexCalls st) (buildSearchParams p)")
      case (Inr r)
      then show ?thesis using Some by (simp add: performAlgoliaSearch_success)
    next
      case (Inl e)
      show ?thesis
      proof (cases "attempt < 3")
        case True
        then have lt: "attempt < MAX_RETRIES CONFIG" by (simp add: CONFIG_def)
        from "1.IH"[OF Some Inl lt] show ?thesis
          using Some Inl True
          by (simp add: performAlgoliaSearch_retry CONFIG_def delay_def)
      next
        case False
        then show ?thesis using Some Inl by (simp add: performAlgoliaSearch_exhausted)
      qed
    qed
  qed
qed

lemma performAlgoliaSearch_frame':
  assumes "performAlgoliaSearch idx params attempt st = (r, st1)"
  shows "searchCache st1 = searchCache st" "analyticsLog st1 = analyticsLog st"
    "isDemoMode st1 = isDemoMode st"
  using performAlgoliaSearch_frame[of idx params attempt st] assms by simp_all

lemma logAnalytics_frame:
  "searchCache (logAnalytics params res dur c st) = searchCache st"
  "isDemoMode (logAnalytics params res dur c st) = isDemoMode st"
  "now (logAnalytics params res dur c st) = now st"
  "delays (logAnalytics params res dur c st) = delays st"
  "indexCalls (logAnalytics params res dur c st) = indexCalls st"
  by (simp_all add: logAnalytics_def Let_def)

lemma logAnalytics_log:
  "analyticsLog (logAnalytics params res dur c st) =
     (if length (analyticsLog st @ [makeLogEntry params res dur c st]) > 1000
      then tl (analyticsLog st @ [makeLogEntry params res dur c st])
      else analyticsLog st @ [makeLogEntry params res dur c st])"
  by (simp add: logAnalytics_def Let_def CONFIG_def)

lemma logAnalytics_last:
  "last (analyticsLog (logAnalytics params res dur c st)) = makeLogEntry params res dur c st"
  by (cases "analyticsLog st") (simp_all add: logAnalytics_log last_tl)

lemma makeLogEntry_fields:
  "fromCache (makeLogEntry params res dur c st) = c"
  "duration (makeLogEntry params res dur c st) = dur"
  "hitsCount (makeLogEntry params res dur c st) = length (hits res)"
  "totalHits (makeLogEntry params res dur c st) = total res"
  "log_source (makeLogEntry params res dur c st) = (if isDemoMode st then ''demo'' else ''algolia'')"
  by (simp_all add: makeLogEntry_def Let_def)

lemma searchProducts_hit:
  assumes "searchCache st (generateCacheKey (Some p)) = Some entry"
    and "now st - timestamp entry < 5 * 60 * 1000"
  shows "searchProducts idx (Some p) st
       = (Inr (data entry), logAnalytics (Some p) (data entry) 0 True st)"
  using assms by (simp add: searchProducts_def isCacheValid_def Let_def CONFIG_def)

lemma searchProducts_hit_null:
  assumes "searchCache st (generateCacheKey None) = Some entry"
    and "now st - timestamp entry < 5 * 60 * 1000"
  shows "searchProducts idx None st = (Inl nullParamsError, st)"
  using assms by (simp add: searchProducts_def isCacheValid_def Let_def CONFIG_def)

lemma searchProducts_demo:
  assumes "\<not> isCacheValid st (searchCache st (generateCacheKey params))" and "isDemoMode st"
  shows "searchProducts idx params st =
     (Inr (searchDemoProducts params),
      (logAnalytics params (searchDemoProducts params) 0 False st)
        \<lparr>searchCache := (searchCache st)
           (generateCacheKey params \<mapsto> \<lparr>data = searchDemoProducts params, timestamp = now st\<rparr>)\<rparr>)"
  using assms by (simp add: searchProducts_def Let_def logAnalytics_frame)

lemma searchProducts_remote:
  assumes "\<not> isCacheValid st (searchCache st (generateCacheKey params))" and "\<not> isDemoMode st"
    and "performAlgoliaSearch idx params 1 st = (Inr res, st1)"
  shows "searchProducts idx params st =
     (Inr res,
      (logAnalytics params res (now st1 - now st) False st1)
        \<lparr>searchCache := (searchCache st)
           (generateCacheKey params \<mapsto> \<lparr>data = res, timestamp = now st1\<rparr>)\<rparr>)"
  using assms performAlgoliaSearch_frame'[OF assms(3)]
  by (simp add: searchProducts_def Let_def logAnalytics_frame)

lemma searchProducts_fallback:
  assumes "\<not> isCacheValid st (searchCache st (generateCacheKey params))" and "\<not> isDemoMode st"
    and "performAlgoliaSearch idx params 1 st = (Inl e, st1)"
  shows "searchProducts idx params st =
     (Inr ((searchDemoProducts params)\<lparr>fallback := Some True, error := Some (message e)\<rparr>),
      logAnalytics params
        ((searchDemoProducts params)\<lparr>fallback := Some True, error := Some (message e)\<rparr>)
        (now st1 - now st) False st1)"
  using assms by (simp add: searchProducts_def Let_def CONFIG_def)

lemma searchProducts_demo_miss:
  assumes "isDemoMode st" and "\<not> isCacheValid st (searchCache st (generateCacheKey params))"
  shows "fst (searchProducts idx params st) = Inr (searchDemoProducts params)"
  using assms by (simp add: searchProducts_def Let_def)

lemma searchProducts_miss_returns:
  assumes "\<not> isCacheValid st (searchCache st (generateCacheKey params))"
  shows "\<exists>res. fst (searchProducts idx params st) = Inr res"
  using assms
  by (auto simp add: searchProducts_def Let_def CONFIG_def split: prod.splits sum.splits)

lemma delay_fields:
  "indexCalls (delay ms s) = indexCalls s" "delays (delay ms s) = delays s @ [ms]"
  "now (delay ms s) = now s + ms" "searchCache (delay ms s) = searchCache s"
  "analyticsLog (delay ms s) = analyticsLog s" "isDemoMode (delay ms s) = isDemoMode s"
  by (simp_all add: delay_def)

lemma performAlgoliaSearch_three_failures:
  assumes "idx (indexCalls st) (buildSearchParams p) = Inl e1"
    and "idx (indexCalls st + 1) (buildSearchParams p) = Inl e2"
    and "idx (indexCalls st + 2) (buildSearchParams p) = Inl e3"
  shows "performAlgoliaSearch idx (Some p) 1 st =
     (Inl e3, st\<lparr>indexCalls := indexCalls st + 3, now := now st + 3000,
                 delays := delays st @ [1000, 2000]\<rparr>)"
proof -
  let ?s1 = "delay (1000 * int 1) (st\<lparr>indexCalls := indexCalls st + 1\<rparr>)"
  let ?s2 = "delay (1000 * int 2) (?s1\<lparr>indexCalls := indexCalls ?s1 + 1\<rparr>)"
  have a: "performAlgoliaSearch idx (Some p) 1 st = performAlgoliaSearch idx (Some p) 2 ?s1"
    using performAlgoliaSearch_retry[of idx st p e1 1] assms(1) by (simp add: numeral_2_eq_2)
  have i1: "indexCalls ?s1 = indexCalls st + 1" by (simp add: delay_def)
  have b: "performAlgoliaSearch idx (Some p) 2 ?s1 = performAlgoliaSearch idx (Some p) 3 ?s2"
    using performAlgoliaSearch_retry[of idx ?s1 p e2 2] assms(2) i1 by (simp add: numeral_3_eq_3 numeral_2_eq_2)
  have i2: "indexCalls ?s2 = indexCalls st + 2" by (simp add: delay_def)
  have c: "performAlgoliaSearch idx (Some p) 3 ?s2 = (Inl e3, ?s2\<lparr>indexCalls := indexCalls ?s2 + 1\<rparr>)"
    using performAlgoliaSearch_exhausted[of idx ?s2 p e3 3] assms(3) i2 by simp
  show ?thesis
    unfolding a b c by (simp add: delay_def)
qed

lemma performAlgoliaSearch_bounds_request:
  "indexCalls (snd (performAlgoliaSearch idx (Some p) 1 st)) \<le> indexCalls st + 3
   \<and> (\<exists>ds. delays (snd (performAlgoliaSearch idx (Some p) 1 st)) = delays st @ ds
           \<and> sum_list ds \<le> 3000)"
proof (cases "idx (indexCalls st) (buildSearchParams p)")
  case (Inr r)
  then show ?thesis by (simp add: performAlgoliaSearch_success)
next
  case e1: (Inl e1)
  let ?s1 = "delay (1000 * int 1) (st\<lparr>indexCalls := indexCalls st + 1\<rparr>)"
  have a: "performAlgoliaSearch idx (Some p) 1 st = performAlgoliaSearch idx (Some p) 2 ?s1"
    using performAlgoliaSearch_retry[of idx st p e1 1] e1 by (simp add: numeral_2_eq_2)
  have i1: "indexCalls ?s1 = indexCalls st + 1" "delays ?s1 = delays st @ [1000]"
    by (simp_all add: delay_def)
  show ?thesis
  proof (cases "idx (indexCalls st + 1) (buildSearchParams p)")
    case (Inr r)
    then have "idx (indexCalls ?s1) (buildSearchParams p) = Inr r" by (simp add: delay_fields)
    then show ?thesis unfolding a
      by (simp add: performAlgoliaSearch_success delay_fields)
  next
    case e2: (Inl e2)
    show ?thesis
    proof (cases "idx (indexCalls st + 2) (buildSearchParams p)")
      case (Inr r)
      let ?s2 = "delay (1000 * int 2) (?s1\<lparr>indexCalls := indexCalls ?s1 + 1\<rparr>)"
      have b: "performAlgoliaSearch idx (Some p) 2 ?s1 = performAlgoliaSearch idx (Some p) 3 ?s2"
        using performAlgoliaSearch_retry[of idx ?s1 p e2 2] e2 i1 by (simp add: numeral_3_eq_3 numeral_2_eq_2)
      have i2: "indexCalls ?s2 = indexCalls st + 2" "delays ?s2 = delays st @ [1000, 2000]"
        by (simp_all add: delay_def)
      from Inr have "idx (indexCalls ?s2) (buildSearchParams p) = Inr r" by (simp add: delay_fields numeral_2_eq_2)
      then show ?thesis unfolding a b
        by (simp add: performAlgoliaSearch_success delay_fields)
    next
      case e3: (Inl e3)
      show ?thesis
        using performAlgoliaSearch_three_failures[of idx st p e1 e2 e3] e1 e2 e3 by simp
    qed
  qed
qed

lemma performAlgoliaSearch_bounds:
  "indexCalls (snd (performAlgoliaSearch idx params 1 st)) \<le> indexCalls st + 3
   \<and> (\<exists>ds. delays (snd (performAlgoliaSearch idx params 1 st)) = delays st @ ds
           \<and> sum_list ds \<le> 3000)"
proof (cases params)
  case None
  then show ?thesis by (simp add: performAlgoliaSearch_null)
next
  case (Some p)
  then show ?thesis by (simp only: performAlgoliaSearch_bounds_request)
qed

lemma searchProducts_logs_once:
  assumes "params \<noteq> None \<or> \<not> isCacheValid st (searchCache st (generateCacheKey params))"
  shows "\<exists>e. analyticsLog (snd (searchProducts idx params st)) =
           (if length (analyticsLog st @ [e]) > 1000 then tl (analyticsLog st @ [e])
            else analyticsLog st @ [e])"
proof (cases "isCacheValid st (searchCache st (generateCacheKey params))")
  case True
  with assms obtain p where p: "params = Some p" by auto
  from True obtain entry where e: "searchCache st (generateCacheKey (Some p)) = Some entry"
    and v: "now st - timestamp entry < 5 * 60 * 1000"
    unfolding p by (auto simp add: isCacheValid_def CONFIG_def Let_def split: option.splits)
  show ?thesis
    unfolding p searchProducts_hit[OF e v] by (auto simp add: logAnalytics_log)
next
  case miss: False
  show ?thesis
  proof (cases "isDemoMode st")
    case True
    show ?thesis
      unfolding searchProducts_demo[OF miss True] by (auto simp add: logAnalytics_log)
  next
    case False
    obtain r st1 where run: "performAlgoliaSearch idx params 1 st = (r, st1)"
      by (cases "performAlgoliaSearch idx params 1 st")
    have fr: "analyticsLog st1 = analyticsLog st"
      using performAlgoliaSearch_frame'[OF run] by simp
    show ?thesis
    proof (cases r)
      case (Inl err)
      show ?thesis
        unfolding searchProducts_fallback[OF miss False run[unfolded Inl]]
        by (auto simp add: logAnalytics_log fr)
    next
      case (Inr res)
      show ?thesis
        unfolding searchProducts_remote[OF miss False run[unfolded Inr]]
        by (auto simp add: logAnalytics_log fr)
    qed
  qed
qed

lemma length_filter_tl: "length (filter P (tl xs)) \<le> length (filter P xs)"
  by (cases xs) simp_all

lemma source_searchDemoProducts: "source (searchDemoProducts params) = ''demo''"
  by (simp add: searchDemoProducts_def Let_def)

lemma generateCacheKey_zero:
  "generateCacheKey (Some (r\<lparr>hitsPerPage := Some 0\<rparr>))
     = generateCacheKey (Some (r\<lparr>hitsPerPage := Some 5\<rparr>))"
  by (simp add: generateCacheKey_def)

lemma demoMatches_hitsPerPage:
  "demoMatches (Some (r\<lparr>hitsPerPage := h\<rparr>)) = demoMatches (Some r)"
  by (simp add: demoMatches_def)

lemma hits_zero: "hits (searchDemoProducts (Some (r\<lparr>hitsPerPage := Some 0\<rparr>))) = []"
  by (simp add: searchDemoProducts_def slice0_def Let_def)

lemma hits_five:
  "hits (searchDemoProducts (Some (r\<lparr>hitsPerPage := Some 5\<rparr>))) = take 5 (demoMatches (Some r))"
  by (simp add: searchDemoProducts_def slice0_nonneg Let_def demoMatches_hitsPerPage)

lemma demo_then_hit:
  assumes miss: "\<not> isCacheValid st (searchCache st (generateCacheKey (Some p)))"
    and demo: "isDemoMode st"
    and key: "generateCacheKey (Some q) = generateCacheKey (Some p)"
    and ttl: "t - now st < 5 * 60 * 1000"
  shows "fst (searchProducts idx (Some q) ((snd (searchProducts idx (Some p) st))\<lparr>now := t\<rparr>))
       = Inr (searchDemoProducts (Some p))"
proof -
  let ?st1 = "snd (searchProducts idx (Some p) st)"
  let ?entry = "\<lparr>data = searchDemoProducts (Some p), timestamp = now st\<rparr>"
  have "searchCache (?st1\<lparr>now := t\<rparr>) (generateCacheKey (Some q)) = Some ?entry"
    using key by (simp add: searchProducts_demo[OF miss demo])
  moreover have "now (?st1\<lparr>now := t\<rparr>) - timestamp ?entry < 5 * 60 * 1000"
    using ttl by simp
  ultimately show ?thesis
    by (simp add: searchProducts_hit)
qed

section \<open>The claims about the gateway and the orchestrator\<close>

text \<open>
  Claim C4. A failed attempt numbered below \<open>MAX_RETRIES = 3\<close> waits
  \<open>RETRY_DELAY_MS * attempt\<close> milliseconds and retries with the next attempt number;
  a failed attempt numbered 3 returns its error as it is. So a call that starts at
  attempt 1 and fails three times waits 1000 and then 2000 milliseconds and returns
  the third error; and whatever the index answers, the call sends at most three
  queries and waits at most 3000 milliseconds in all.
\<close>

theorem C4_bounded_retry_with_linear_backoff:
  "MAX_RETRIES CONFIG = 3 \<and> RETRY_DELAY_MS CONFIG = 1000
   \<and> (idx (indexCalls st) (buildSearchParams p) = Inl e \<and> attempt < MAX_RETRIES CONFIG \<longrightarrow>
        performAlgoliaSearch idx (Some p) attempt st =
          performAlgoliaSearch idx (Some p) (attempt + 1)
            (delay (RETRY_DELAY_MS CONFIG * int attempt) (st\<lparr>indexCalls := indexCalls st + 1\<rparr>)))
   \<and> (idx (indexCalls st) (buildSearchParams p) = Inl e \<and> attempt = MAX_RETRIES CONFIG \<longrightarrow>
        performAlgoliaSearch idx (Some p) attempt st
          = (Inl e, st\<lparr>indexCalls := indexCalls st + 1\<rparr>))
   \<and> (idx (indexCalls st) (buildSearchParams p) = Inl e1
        \<and> idx (indexCalls st + 1) (buildSearchParams p) = Inl e2
        \<and> idx (indexCalls st + 2) (buildSearchParams p) = Inl e3 \<longrightarrow>
        performAlgoliaSearch idx (Some p) 1 st =
          (Inl e3, st\<lparr>indexCalls := indexCalls st + 3, now := now st + 3000,
                      delays := delays st @ [1000, 2000]\<rparr>))
   \<and> indexCalls (snd (performAlgoliaSearch idx params 1 st)) \<le> indexCalls st + 3
   \<and> (\<exists>ds. delays (snd (performAlgoliaSearch idx params 1 st)) = delays st @ ds
           \<and> sum_list ds \<le> 3000)"
proof -
  have c: "MAX_RETRIES CONFIG = 3" "RETRY_DELAY_MS CONFIG = 1000" by (simp_all add: CONFIG_def)
  have retry: "idx (indexCalls st) (buildSearchParams p) = Inl e \<and> attempt < MAX_RETRIES CONFIG \<longrightarrow>
        performAlgoliaSearch idx (Some p) attempt st =
          performAlgoliaSearch idx (Some p) (attempt + 1)
            (delay (RETRY_DELAY_MS CONFIG * int attempt) (st\<lparr>indexCalls := indexCalls st + 1\<rparr>))"
    unfolding c using performAlgoliaSearch_retry[of idx st p e attempt] by blast
  have stop: "idx (indexCalls st) (buildSearchParams p) = Inl e \<and> attempt = MAX_RETRIES CONFIG \<longrightarrow>
        performAlgoliaSearch idx (Some p) attempt st
          = (Inl e, st\<lparr>indexCalls := indexCalls st + 1\<rparr>)"
    unfolding c using performAlgoliaSearch_exhausted[of idx st p e 3] by auto
  from c retry stop performAlgoliaSearch_three_failures[of idx st p e1 e2 e3]
    performAlgoliaSearch_bounds[of idx params st]
  show ?thesis by blast
qed

text \<open>The theorem of C4 at an index that fails every query: three queries, the delays
  1000 and 2000, and the index's error returned; started at attempt 3, one query and
  no delay.\<close>

theorem C4_bounded_retry_with_linear_backoff_witness:
  "performAlgoliaSearch unreachableIndex (Some emptyRequest) 1 moduleState =
     (Inl (RemoteSearchError ''unreachable''),
      moduleState\<lparr>indexCalls := 3, now := 3000, delays := [1000, 2000]\<rparr>)
   \<and> performAlgoliaSearch unreachableIndex (Some emptyRequest) 3 moduleState =
     (Inl (RemoteSearchError ''unreachable''), moduleState\<lparr>indexCalls := 1\<rparr>)"
  using C4_bounded_retry_with_linear_backoff[where idx = unreachableIndex and st = moduleState
      and p = emptyRequest and attempt = 3 and e = "RemoteSearchError ''unreachable''"
      and ?e1.0 = "RemoteSearchError ''unreachable''"
      and ?e2.0 = "RemoteSearchError ''unreachable''"
      and ?e3.0 = "RemoteSearchError ''unreachable''"]
  by (simp add: unreachableIndex_def moduleState_def)

text \<open>
  Claim C1, as the code has it. When the remote search has failed after its retries
  (the gateway returned the error \<open>e\<close>) and fallback is enabled, which it is in
  \<open>CONFIG\<close>, the orchestrator returns the fallback search's result with
  \<open>fallback = true\<close> and \<open>error\<close> the message of \<open>e\<close>, pushes one record for it on
  the analytics log, and leaves the cache as it was: this path does not write the
  result into the cache.
\<close>

theorem C1_fallback_after_failure_skips_cache:
  assumes "\<not> isDemoMode st"
    and "\<not> isCacheValid st (searchCache st (generateCacheKey params))"
    and "performAlgoliaSearch idx params 1 st = (Inl e, st1)"
  shows "DEMO_FALLBACK CONFIG
    \<and> (\<exists>res st2. searchProducts idx params st = (Inr res, st2)
          \<and> res = (searchDemoProducts params)\<lparr>fallback := Some True, error := Some (message e)\<rparr>
          \<and> analyticsLog st2 =
               (if length (analyticsLog st @ [makeLogEntry params res (now st1 - now st) False st1]) > 1000
                then tl (analyticsLog st @ [makeLogEntry params res (now st1 - now st) False st1])
                else analyticsLog st @ [makeLogEntry params res (now st1 - now st) False st1])
          \<and> searchCache st2 = searchCache st)"
  using searchProducts_fallback[OF assms(2) assms(1) assms(3)] performAlgoliaSearch_frame'[OF assms(3)]
  by (simp add: logAnalytics_log logAnalytics_frame CONFIG_def)

text \<open>The theorem of C1 at the empty request, with the module's first state and an
  index that fails every query.\<close>

theorem C1_fallback_after_failure_skips_cache_witness:
  "fallback ((searchDemoProducts (Some emptyRequest))
              \<lparr>fallback := Some True, error := Some ''unreachable''\<rparr>) = Some True
   \<and> (\<exists>st2. searchProducts unreachableIndex (Some emptyRequest) moduleState
          = (Inr ((searchDemoProducts (Some emptyRequest))
              \<lparr>fallback := Some True, error := Some ''unreachable''\<rparr>), st2)
         \<and> length (analyticsLog st2) = 1
         \<and> searchCache st2 = Map.empty)"
proof -
  have a: "\<not> isDemoMode moduleState" by (simp add: moduleState_def)
  have b: "\<not> isCacheValid moduleState (searchCache moduleState (generateCacheKey (Some emptyRequest)))"
    by (simp add: moduleState_def isCacheValid_def)
  have c: "performAlgoliaSearch unreachableIndex (Some emptyRequest) 1 moduleState
     = (Inl (RemoteSearchError ''unreachable''),
        moduleState\<lparr>indexCalls := indexCalls moduleState + 3, now := now moduleState + 3000,
                 delays := delays moduleState @ [1000, 2000]\<rparr>)"
    by (rule performAlgoliaSearch_three_failures) (simp_all add: unreachableIndex_def)
  from C1_fallback_after_failure_skips_cache[OF a b c] show ?thesis
    by (auto simp add: moduleState_def)
qed

text \<open>
  Claim C1 as stated fails: after the fallback answer to the empty request, with an
  index that fails every query, the result carries \<open>fallback = true\<close> and the error
  message, one analytics record is there, and the cache has no entry under the
  request's key.
\<close>

theorem C1_fallback_result_not_cached:
  "fst (searchProducts unreachableIndex (Some emptyRequest) moduleState)
     = Inr ((searchDemoProducts (Some emptyRequest))
              \<lparr>fallback := Some True, error := Some ''unreachable''\<rparr>)
   \<and> length (analyticsLog (snd (searchProducts unreachableIndex (Some emptyRequest) moduleState))) = 1
   \<and> searchCache (snd (searchProducts unreachableIndex (Some emptyRequest) moduleState))
        (generateCacheKey (Some emptyRequest)) = None"
  by code_simp

text \<open>
  Claim C3 at a \<open>null\<close> request. In the test suite's starting state a first
  \<open>searchProducts(null)\<close> stores its result under the key of the empty request; at the
  second \<open>searchProducts(null)\<close> the entry is valid and holds that result, and the call
  throws the type error of reading \<open>params.query\<close> instead of returning the stored
  result. (For a request that is not \<open>null\<close> the stored result is returned with one
  analytics record, \<open>fromCache\<close> true and duration 0, and nothing else happens:
  \<open>searchProducts_hit\<close>.)
\<close>

theorem C3_null_request_cache_hit_throws:
  "isCacheValid (snd (searchProducts unreachableIndex None testState))
     (searchCache (snd (searchProducts unreachableIndex None testState)) (generateCacheKey None))
   \<and> map_option data
        (searchCache (snd (searchProducts unreachableIndex None testState)) (generateCacheKey None))
      = Some (searchDemoProducts None)
   \<and> fst (searchProducts unreachableIndex None
            (snd (searchProducts unreachableIndex None testState)))
      = Inl nullParamsError"
  by code_simp

text \<open>
  Claim C7 at a \<open>null\<close> request. After a first \<open>searchProducts(null)\<close> in the test
  suite's starting state the log holds one record; the second \<open>searchProducts(null)\<close>,
  a cache hit, throws before it logs, and the log is as it was. (Every call with a
  request that is not \<open>null\<close>, and every call that misses the cache, pushes exactly one
  record: \<open>searchProducts_logs_once\<close>.)
\<close>

theorem C7_null_request_cache_hit_logs_nothing:
  "length (analyticsLog (snd (searchProducts unreachableIndex None testState))) = 1
   \<and> analyticsLog (snd (searchProducts unreachableIndex None
                          (snd (searchProducts unreachableIndex None testState))))
      = analyticsLog (snd (searchProducts unreachableIndex None testState))"
  by code_simp

text \<open>
  Claim C8, as the code has it. A call that misses the cache returns a result, never
  an error, whatever the filters text is, and in demo mode that result is the fallback
  search's. An atom in which none of the five patterns matches is ignored: wherever
  it stands in a conjunction, the result is that of the conjunction without it, and on
  its own it gives the result of no filters. So it is, in particular, for an atom that
  contains none of the texts \<open>price_sale\<close>, \<open>weight_kg\<close>, \<open>battery_hours\<close>, \<open>brand:\<close> and
  \<open>in_stock:true\<close>. With the filters empty or absent the filter stage lets every
  product of the dataset through (only the text search on the query, if there is one,
  still applies).
\<close>

theorem C8_unmatched_atoms_are_ignored:
  "(\<not> isCacheValid st (searchCache st (generateCacheKey params)) \<longrightarrow>
      (\<exists>res. fst (searchProducts idx params st) = Inr res)
      \<and> (isDemoMode st \<longrightarrow> fst (searchProducts idx params st) = Inr (searchDemoProducts params)))
   \<and> (budgetMatch u = None \<and> weightMatch u = None \<and> batteryMatch u = None
        \<and> brandMatch u = None \<and> \<not> js_includes u ''in_stock:true''
      \<longrightarrow> searchDemoProducts (Some (r\<lparr>filters := Some (conjunction (xs @ u # ys))\<rparr>))
          = searchDemoProducts (Some (r\<lparr>filters := Some (conjunction (xs @ ys))\<rparr>))
        \<and> searchDemoProducts (Some (r\<lparr>filters := Some u\<rparr>))
          = searchDemoProducts (Some (r\<lparr>filters := None\<rparr>)))
   \<and> (\<not> js_includes u ''price_sale'' \<and> \<not> js_includes u ''weight_kg''
        \<and> \<not> js_includes u ''battery_hours'' \<and> \<not> js_includes u ''brand:''
        \<and> \<not> js_includes u ''in_stock:true''
      \<longrightarrow> searchDemoProducts (Some (r\<lparr>filters := Some (conjunction (xs @ u # ys))\<rparr>))
          = searchDemoProducts (Some (r\<lparr>filters := Some (conjunction (xs @ ys))\<rparr>))
        \<and> searchDemoProducts (Some (r\<lparr>filters := Some u\<rparr>))
          = searchDemoProducts (Some (r\<lparr>filters := None\<rparr>)))
   \<and> (filters r = None \<or> filters r = Some [] \<longrightarrow>
        demoMatches (Some r) =
          sort_key price_sale
            (case query r of
               None \<Rightarrow> DEMO_PRODUCTS
             | Some q \<Rightarrow> if q \<noteq> [] \<and> q \<noteq> ''laptop'' then textSearch q DEMO_PRODUCTS
                         else DEMO_PRODUCTS))
   \<and> demoMatches None = sort_key price_sale DEMO_PRODUCTS"
  (is "?miss \<and> ?nomatch \<and> ?nofield \<and> ?nofilters \<and> ?null")
proof -
  have "?miss"
    using searchProducts_miss_returns[of st params idx] searchProducts_demo_miss[of st params idx]
    by blast
  moreover have "?nomatch"
  proof (intro impI, elim conjE)
    assume n: "budgetMatch u = None" "weightMatch u = None" "batteryMatch u = None"
      "brandMatch u = None" "\<not> js_includes u ''in_stock:true''"
    show "searchDemoProducts (Some (r\<lparr>filters := Some (conjunction (xs @ u # ys))\<rparr>))
          = searchDemoProducts (Some (r\<lparr>filters := Some (conjunction (xs @ ys))\<rparr>))
        \<and> searchDemoProducts (Some (r\<lparr>filters := Some u\<rparr>))
          = searchDemoProducts (Some (r\<lparr>filters := None\<rparr>))"
      using searchDemoProducts_unmatched_atom[OF n] searchDemoProducts_unrecognised[OF n]
      by simp
  qed
  moreover have "?nofield"
  proof (intro impI, elim conjE)
    assume f: "\<not> js_includes u ''price_sale''" "\<not> js_includes u ''weight_kg''"
      "\<not> js_includes u ''battery_hours''" "\<not> js_includes u ''brand:''"
      and s: "\<not> js_includes u ''in_stock:true''"
    show "searchDemoProducts (Some (r\<lparr>filters := Some (conjunction (xs @ u # ys))\<rparr>))
          = searchDemoProducts (Some (r\<lparr>filters := Some (conjunction (xs @ ys))\<rparr>))
        \<and> searchDemoProducts (Some (r\<lparr>filters := Some u\<rparr>))
          = searchDemoProducts (Some (r\<lparr>filters := None\<rparr>))"
      using searchDemoProducts_unmatched_atom[OF unrecognised_fields[OF f] s]
        searchDemoProducts_unrecognised[OF unrecognised_fields[OF f] s]
      by simp
  qed
  moreover have "?nofilters"
    using demoMatches_no_filters[of r] by blast
  moreover have "?null"
    by (rule demoMatches_null)
  ultimately show ?thesis by blast
qed

text \<open>The theorem of C8 in demo mode at the filters text
  \<open>price_sale < 3000000 AND ram:16 AND in_stock:true\<close>: the atom \<open>ram:16\<close> names no field
  of the search, the call returns the result of \<open>price_sale < 3000000 AND in_stock:true\<close>
  with its four products, and \<open>ram:16\<close> on its own gives all five.\<close>

theorem C8_unmatched_atoms_are_ignored_witness:
  "fst (searchProducts unreachableIndex
          (Some \<lparr>query = None, filters = Some ''price_sale < 3000000 AND ram:16 AND in_stock:true'',
                 hitsPerPage = None, attributesToRetrieve = None\<rparr>) testState)
     = Inr (searchDemoProducts (Some \<lparr>query = None,
                 filters = Some ''price_sale < 3000000 AND in_stock:true'',
                 hitsPerPage = None, attributesToRetrieve = None\<rparr>))
   \<and> total (searchDemoProducts (Some \<lparr>query = None,
                 filters = Some ''price_sale < 3000000 AND in_stock:true'',
                 hitsPerPage = None, attributesToRetrieve = None\<rparr>)) = 4
   \<and> searchDemoProducts (Some \<lparr>query = None, filters = Some ''ram:16'',
                 hitsPerPage = None, attributesToRetrieve = None\<rparr>)
     = searchDemoProducts (Some \<lparr>query = None, filters = None,
                 hitsPerPage = None, attributesToRetrieve = None\<rparr>)
   \<and> total (searchDemoProducts (Some \<lparr>query = None, filters = None,
                 hitsPerPage = None, attributesToRetrieve = None\<rparr>)) = 5"
proof -
  let ?u = "''ram:16''"
  let ?xs = "[''price_sale < 3000000'']"
  let ?ys = "[''in_stock:true'']"
  let ?base = "\<lparr>query = None, filters = None, hitsPerPage = None, attributesToRetrieve = None\<rparr>"
  let ?req = "\<lparr>query = None, filters = Some ''price_sale < 3000000 AND ram:16 AND in_stock:true'',
                 hitsPerPage = None, attributesToRetrieve = None\<rparr>"
  have miss: "\<not> isCacheValid testState (searchCache testState (generateCacheKey (Some ?req)))"
    by (simp add: testState_def moduleState_def setDemoMode_def clearCache_def
        clearAnalytics_def isCacheValid_def)
  have demo: "isDemoMode testState"
    by (simp add: testState_def setDemoMode_def)
  have none: "budgetMatch ?u = None \<and> weightMatch ?u = None \<and> batteryMatch ?u = None
        \<and> brandMatch ?u = None \<and> \<not> js_includes ?u ''in_stock:true''"
    by code_simp
  have nofield: "\<not> js_includes ?u ''price_sale'' \<and> \<not> js_includes ?u ''weight_kg''
        \<and> \<not> js_includes ?u ''battery_hours'' \<and> \<not> js_includes ?u ''brand:''"
    by code_simp
  have c: "conjunction (?xs @ ?u # ?ys) = ''price_sale < 3000000 AND ram:16 AND in_stock:true''"
    "conjunction (?xs @ ?ys) = ''price_sale < 3000000 AND in_stock:true''"
    by simp_all
  have upd: "?base\<lparr>filters := Some f\<rparr>
      = \<lparr>query = None, filters = Some f, hitsPerPage = None, attributesToRetrieve = None\<rparr>"
    "?base\<lparr>filters := None\<rparr> = ?base" "filters ?base = None" for f
    by simp_all
  have tot: "total (searchDemoProducts (Some \<lparr>query = None,
                 filters = Some ''price_sale < 3000000 AND in_stock:true'',
                 hitsPerPage = None, attributesToRetrieve = None\<rparr>)) = 4"
    "total (searchDemoProducts (Some ?base)) = 5"
    by code_simp+
  from C8_unmatched_atoms_are_ignored[where st = testState and params = "Some ?req"
      and idx = unreachableIndex and u = ?u and xs = ?xs and ys = ?ys and r = ?base]
    miss demo none nofield tot
  show ?thesis unfolding c upd by simp
qed

text \<open>
  Claim C8 as stated fails for a malformed atom in which a pattern still matches. In
  \<open>price_sale 1000\<close> the operator is missing; the pattern takes the operator as
  optional, captures \<open>1000\<close>, and the atom is applied as \<open>price_sale < 1000\<close>: no product
  is left, where an ignored atom would leave all five.
\<close>

theorem C8_malformed_atom_constrains:
  "budgetMatch ''price_sale 1000'' = Some ''1000''
   \<and> total (searchDemoProducts (Some \<lparr>query = None, filters = Some ''price_sale 1000'',
                 hitsPerPage = None, attributesToRetrieve = None\<rparr>)) = 0
   \<and> total (searchDemoProducts (Some \<lparr>query = None, filters = None,
                 hitsPerPage = None, attributesToRetrieve = None\<rparr>)) = 5"
  by code_simp

text \<open>The \<open>brand:\<close> pattern is not anchored at the start of a field name, so it matches
  inside \<open>processor_brand:Intel\<close> too, and that atom is applied as \<open>brand:Intel\<close>.\<close>

lemma brand_pattern_inside_field_name:
  "brandMatch ''processor_brand:Intel'' = Some ''Intel''
   \<and> total (searchDemoProducts (Some \<lparr>query = None, filters = Some ''processor_brand:Intel'',
                 hitsPerPage = None, attributesToRetrieve = None\<rparr>)) = 0"
  by code_simp

text \<open>The malformed filters text of the test suite, \<open>price_sale < < invalid > >\<close>: no
  pattern matches in it and the search returns all five products.\<close>

lemma malformed_filters_of_the_tests:
  "budgetMatch ''price_sale < < invalid > >'' = None
   \<and> total (searchDemoProducts (Some \<lparr>query = None,
                 filters = Some ''price_sale < < invalid > >'',
                 hitsPerPage = None, attributesToRetrieve = None\<rparr>)) = 5"
  by code_simp

text \<open>
  Claim C9. The cache key of a request with \<open>hitsPerPage = 0\<close> is the key of the same
  request with \<open>hitsPerPage = 5\<close>; the fallback search returns no hits for the first
  and the first five matching products for the second, so the two results differ
  whenever a product matches. In demo mode, if one of the two requests misses the
  cache and the other follows within the TTL, the second call returns the result of
  the first, whichever of the two came first.
\<close>

theorem C9_zero_hits_per_page_shares_cache_entry:
  "generateCacheKey (Some (r\<lparr>hitsPerPage := Some 0\<rparr>))
     = generateCacheKey (Some (r\<lparr>hitsPerPage := Some 5\<rparr>))
   \<and> hits (searchDemoProducts (Some (r\<lparr>hitsPerPage := Some 0\<rparr>))) = []
   \<and> hits (searchDemoProducts (Some (r\<lparr>hitsPerPage := Some 5\<rparr>))) = take 5 (demoMatches (Some r))
   \<and> (demoMatches (Some r) \<noteq> [] \<longrightarrow>
        searchDemoProducts (Some (r\<lparr>hitsPerPage := Some 0\<rparr>))
          \<noteq> searchDemoProducts (Some (r\<lparr>hitsPerPage := Some 5\<rparr>)))
   \<and> (isDemoMode st
        \<and> \<not> isCacheValid st (searchCache st (generateCacheKey (Some (r\<lparr>hitsPerPage := Some 0\<rparr>))))
        \<and> t - now st < 5 * 60 * 1000
      \<longrightarrow> fst (searchProducts idx (Some (r\<lparr>hitsPerPage := Some 5\<rparr>))
                ((snd (searchProducts idx (Some (r\<lparr>hitsPerPage := Some 0\<rparr>)) st))\<lparr>now := t\<rparr>))
            = Inr (searchDemoProducts (Some (r\<lparr>hitsPerPage := Some 0\<rparr>)))
        \<and> fst (searchProducts idx (Some (r\<lparr>hitsPerPage := Some 0\<rparr>))
                ((snd (searchProducts idx (Some (r\<lparr>hitsPerPage := Some 5\<rparr>)) st))\<lparr>now := t\<rparr>))
            = Inr (searchDemoProducts (Some (r\<lparr>hitsPerPage := Some 5\<rparr>))))"
proof -
  have k: "generateCacheKey (Some (r\<lparr>hitsPerPage := Some 0\<rparr>))
     = generateCacheKey (Some (r\<lparr>hitsPerPage := Some 5\<rparr>))"
    by (rule generateCacheKey_zero)
  have first_zero: "fst (searchProducts idx (Some (r\<lparr>hitsPerPage := Some 5\<rparr>))
                ((snd (searchProducts idx (Some (r\<lparr>hitsPerPage := Some 0\<rparr>)) st))\<lparr>now := t\<rparr>))
            = Inr (searchDemoProducts (Some (r\<lparr>hitsPerPage := Some 0\<rparr>)))"
    if "isDemoMode st"
      "\<not> isCacheValid st (searchCache st (generateCacheKey (Some (r\<lparr>hitsPerPage := Some 0\<rparr>))))"
      "t - now st < 5 * 60 * 1000"
    using that k[symmetric] by (intro demo_then_hit)
  have first_five: "fst (searchProducts idx (Some (r\<lparr>hitsPerPage := Some 0\<rparr>))
                ((snd (searchProducts idx (Some (r\<lparr>hitsPerPage := Some 5\<rparr>)) st))\<lparr>now := t\<rparr>))
            = Inr (searchDemoProducts (Some (r\<lparr>hitsPerPage := Some 5\<rparr>)))"
    if "isDemoMode st"
      "\<not> isCacheValid st (searchCache st (generateCacheKey (Some (r\<lparr>hitsPerPage := Some 0\<rparr>))))"
      "t - now st < 5 * 60 * 1000"
  proof -
    from that(2) have "\<not> isCacheValid st (searchCache st (generateCacheKey (Some (r\<lparr>hitsPerPage := Some 5\<rparr>))))"
      unfolding k .
    with that k show ?thesis by (intro demo_then_hit)
  qed
  have differ: "searchDemoProducts (Some (r\<lparr>hitsPerPage := Some 0\<rparr>))
          \<noteq> searchDemoProducts (Some (r\<lparr>hitsPerPage := Some 5\<rparr>))"
    if "demoMatches (Some r) \<noteq> []"
  proof
    assume "searchDemoProducts (Some (r\<lparr>hitsPerPage := Some 0\<rparr>))
          = searchDemoProducts (Some (r\<lparr>hitsPerPage := Some 5\<rparr>))"
    then have "take 5 (demoMatches (Some r)) = []"
      using hits_zero[of r] hits_five[of r] by simp
    with that show False by simp
  qed
  from k hits_zero[of r] hits_five[of r] differ first_zero first_five show ?thesis by blast
qed

text \<open>The theorem of C9 at the empty request in the test suite's starting state, the
  second call one second after the first.\<close>

theorem C9_zero_hits_per_page_shares_cache_entry_witness:
  "hits (searchDemoProducts (Some (emptyRequest\<lparr>hitsPerPage := Some 0\<rparr>))) = []
   \<and> length (hits (searchDemoProducts (Some (emptyRequest\<lparr>hitsPerPage := Some 5\<rparr>)))) = 5
   \<and> fst (searchProducts unreachableIndex (Some (emptyRequest\<lparr>hitsPerPage := Some 5\<rparr>))
        ((snd (searchProducts unreachableIndex (Some (emptyRequest\<lparr>hitsPerPage := Some 0\<rparr>))
                 testState))\<lparr>now := 1000\<rparr>))
     = Inr (searchDemoProducts (Some (emptyRequest\<lparr>hitsPerPage := Some 0\<rparr>)))
   \<and> fst (searchProducts unreachableIndex (Some (emptyRequest\<lparr>hitsPerPage := Some 0\<rparr>))
        ((snd (searchProducts unreachableIndex (Some (emptyRequest\<lparr>hitsPerPage := Some 5\<rparr>))
                 testState))\<lparr>now := 1000\<rparr>))
     = Inr (searchDemoProducts (Some (emptyRequest\<lparr>hitsPerPage := Some 5\<rparr>)))"
proof -
  have demo: "isDemoMode testState" by (simp add: testState_def setDemoMode_def)
  have miss: "\<not> isCacheValid testState
      (searchCache testState (generateCacheKey (Some (emptyRequest\<lparr>hitsPerPage := Some 0\<rparr>))))"
    by (simp add: testState_def moduleState_def setDemoMode_def clearCache_def
        clearAnalytics_def isCacheValid_def)
  have ttl: "1000 - now testState < 5 * 60 * 1000"
    by (simp add: testState_def moduleState_def setDemoMode_def clearCache_def
        clearAnalytics_def)
  have five: "length (take 5 (demoMatches (Some emptyRequest))) = 5" by code_simp
  from C9_zero_hits_per_page_shares_cache_entry[of emptyRequest testState 1000 unreachableIndex] demo miss ttl five
  show ?thesis by simp
qed

text \<open>
  Claim C10. The \<open>source\<close> of an analytics record is \<open>demo\<close> or \<open>algolia\<close> by the
  demo-mode flag at the time of logging, whatever result is logged. On the path where
  the remote search has failed and the fallback dataset answers, demo mode is off: the
  result's own source is \<open>demo\<close> and it is flagged as fallback, yet its record says
  \<open>algolia\<close>, and the count of demo searches in the summary does not go up (it is the
  count from before when the log was below its capacity).
\<close>

theorem C10_analytics_source_from_demo_flag:
  "log_source (last (analyticsLog (logAnalytics params res dur cached st)))
     = (if isDemoMode st then ''demo'' else ''algolia'')
   \<and> (\<not> isDemoMode st \<and> \<not> isCacheValid st (searchCache st (generateCacheKey params))
        \<and> performAlgoliaSearch idx params 1 st = (Inl e, st1) \<longrightarrow>
       (\<exists>res2 st2. searchProducts idx params st = (Inr res2, st2)
          \<and> source res2 = ''demo'' \<and> fallback res2 = Some True
          \<and> log_source (last (analyticsLog st2)) = ''algolia''
          \<and> length (filter (\<lambda>l. log_source l = ''demo'') (analyticsLog st2))
              \<le> length (filter (\<lambda>l. log_source l = ''demo'') (analyticsLog st))
          \<and> (length (analyticsLog st) < 1000 \<longrightarrow>
               (\<exists>s. getAnalytics st2 = Some s
                  \<and> totalSearches s = length (analyticsLog st) + 1
                  \<and> demoSearches s
                      = length (filter (\<lambda>l. log_source l = ''demo'') (analyticsLog st))))))"
proof -
  have first: "log_source (last (analyticsLog (logAnalytics params res dur cached st)))
     = (if isDemoMode st then ''demo'' else ''algolia'')"
    by (simp only: logAnalytics_last makeLogEntry_fields)
  have second: "\<exists>res2 st2. searchProducts idx params st = (Inr res2, st2)
          \<and> source res2 = ''demo'' \<and> fallback res2 = Some True
          \<and> log_source (last (analyticsLog st2)) = ''algolia''
          \<and> length (filter (\<lambda>l. log_source l = ''demo'') (analyticsLog st2))
              \<le> length (filter (\<lambda>l. log_source l = ''demo'') (analyticsLog st))
          \<and> (length (analyticsLog st) < 1000 \<longrightarrow>
               (\<exists>s. getAnalytics st2 = Some s
                  \<and> totalSearches s = length (analyticsLog st) + 1
                  \<and> demoSearches s
                      = length (filter (\<lambda>l. log_source l = ''demo'') (analyticsLog st))))"
    if h: "\<not> isDemoMode st" "\<not> isCacheValid st (searchCache st (generateCacheKey params))"
      "performAlgoliaSearch idx params 1 st = (Inl e, st1)"
  proof -
    let ?res = "(searchDemoProducts params)\<lparr>fallback := Some True, error := Some (message e)\<rparr>"
    let ?st2 = "logAnalytics params ?res (now st1 - now st) False st1"
    let ?e = "makeLogEntry params ?res (now st1 - now st) False st1"
    have run: "searchProducts idx params st = (Inr ?res, ?st2)"
      by (rule searchProducts_fallback[OF h(2) h(1) h(3)])
    have fr: "analyticsLog st1 = analyticsLog st" "isDemoMode st1 = isDemoMode st"
      using performAlgoliaSearch_frame'[OF h(3)] by simp_all
    have src: "log_source ?e = ''algolia''"
      using h(1) fr by (simp add: makeLogEntry_fields)
    have lst: "log_source (last (analyticsLog ?st2)) = ''algolia''"
      using src by (simp only: logAnalytics_last)
    have log: "analyticsLog ?st2 =
        (if length (analyticsLog st @ [?e]) > 1000 then tl (analyticsLog st @ [?e])
         else analyticsLog st @ [?e])"
      by (simp only: logAnalytics_log fr)
    have cnt: "length (filter (\<lambda>l. log_source l = ''demo'') (analyticsLog st @ [?e]))
        = length (filter (\<lambda>l. log_source l = ''demo'') (analyticsLog st))"
      using src by simp
    have le: "length (filter (\<lambda>l. log_source l = ''demo'') (analyticsLog ?st2))
        \<le> length (filter (\<lambda>l. log_source l = ''demo'') (analyticsLog st))"
      unfolding log using length_filter_tl[of "\<lambda>l. log_source l = ''demo''" "analyticsLog st @ [?e]"] cnt
      by (simp del: filter_append)
    have small: "\<exists>s. getAnalytics ?st2 = Some s
                  \<and> totalSearches s = length (analyticsLog st) + 1
                  \<and> demoSearches s
                      = length (filter (\<lambda>l. log_source l = ''demo'') (analyticsLog st))"
      if "length (analyticsLog st) < 1000"
    proof -
      from that have "analyticsLog ?st2 = analyticsLog st @ [?e]" unfolding log by simp
      then show ?thesis using src by (simp add: getAnalytics_def)
    qed
    from run lst le small show ?thesis
      by (simp add: source_searchDemoProducts)
  qed
  from first second show ?thesis by blast
qed

text \<open>The theorem of C10 at the empty request, with the module's first state and an
  index that fails every query: one search in the summary, no demo search.\<close>

theorem C10_analytics_source_from_demo_flag_witness:
  "\<exists>res2 st2. searchProducts unreachableIndex (Some emptyRequest) moduleState = (Inr res2, st2)
      \<and> source res2 = ''demo'' \<and> fallback res2 = Some True
      \<and> log_source (last (analyticsLog st2)) = ''algolia''
      \<and> (\<exists>s. getAnalytics st2 = Some s \<and> totalSearches s = 1 \<and> demoSearches s = 0)"
proof -
  have a: "\<not> isDemoMode moduleState" by (simp add: moduleState_def)
  have b: "\<not> isCacheValid moduleState (searchCache moduleState (generateCacheKey (Some emptyRequest)))"
    by (simp add: moduleState_def isCacheValid_def)
  have c: "performAlgoliaSearch unreachableIndex (Some emptyRequest) 1 moduleState
     = (Inl (RemoteSearchError ''unreachable''),
        moduleState\<lparr>indexCalls := indexCalls moduleState + 3, now := now moduleState + 3000,
                 delays := delays moduleState @ [1000, 2000]\<rparr>)"
    by (rule performAlgoliaSearch_three_failures) (simp_all add: unreachableIndex_def)
  have d: "analyticsLog moduleState = []" by (simp add: moduleState_def)
  from C10_analytics_source_from_demo_flag[where res = "searchDemoProducts None" and dur = 0 and cached = False
      and params = "Some emptyRequest" and st = moduleState
      and idx = unreachableIndex and e = "RemoteSearchError ''unreachable''"
      and ?st1.0 = "moduleState\<lparr>indexCalls := indexCalls moduleState + 3,
                 now := now moduleState + 3000, delays := delays moduleState @ [1000, 2000]\<rparr>"]
    a b c
  show ?thesis
    by (auto simp add: d)
qed

end
